theory Spec2Isabelle
  imports Complex_Main "HOL-Library.Word" "HOL-Library.Product_Lexorder" "HOL-Library.Multiset"
begin

section \<open>The \<open>memories\<close> table\<close>

text \<open>
  The schema file declares one table, \<open>memories\<close>, a row-level-security policy on it
  and the function \<open>match_memories\<close>. A row of the table is a record with one field per
  column, named as the query names them through its alias \<open>m\<close> (\<open>m.id\<close>, \<open>m.user_id\<close>,
  ...). Every column is \<open>not null\<close> except \<open>embedding\<close>, which is therefore an option.

  Column types: \<open>uuid\<close> is a 128-bit value, \<open>bigint\<close> and \<open>int\<close> are integers,
  \<open>timestamptz\<close> is a count of microseconds, \<open>vector(1536)\<close> is a list of numbers
  (pgvector admits neither NaN nor an infinity as a component). The column
  \<open>importance\<close>, which the query only copies, is a real number. The values the query
  computes and compares, the distance, the similarity and the threshold, are of
  the type \<open>float8\<close> below.
\<close>

type_synonym uuid = "128 word"
type_synonym timestamptz = int
type_synonym vector = "real list"

record memories =
  m_id :: int
  m_user_id :: uuid
  m_raw_text :: string
  m_summary :: string
  m_embedding :: "vector option"
  m_importance :: real
  m_access_count :: int
  m_summary_count :: int
  m_created_at :: timestamptz
  m_last_accessed_at :: timestamptz

text \<open>The dimension written in \<open>vector(1536)\<close>.\<close>

definition embedding_dim :: nat where
  "embedding_dim = 1536"

datatype error =
    DimensionMismatch nat
  | DifferentDimensions nat nat
  | NotNullViolation string
  | UniqueViolation
  | LimitNegative
  | NotFound

text \<open>An error ends the statement: what follows it is not evaluated.\<close>

definition err_bind :: "error + 'a \<Rightarrow> ('a \<Rightarrow> error + 'b) \<Rightarrow> error + 'b" where
  "err_bind r f = (case r of Inl e \<Rightarrow> Inl e | Inr x \<Rightarrow> f x)"

section \<open>Values of type \<open>float\<close>\<close>

text \<open>
  \<open>float\<close> is \<open>double precision\<close>: a finite number, an infinity or NaN. The finite
  values are modelled by the real numbers (rounding is outside the model). PostgreSQL
  orders the type totally: NaN equals NaN and is greater than every other value, the
  infinities included; \<open>f8_rank\<close> is a key of that order and \<open>f8_gt\<close> is the operator
  \<open>>\<close>. Subtraction follows IEEE arithmetic: NaN if an operand is NaN or if the
  operands are the same infinity.
\<close>

datatype float8 = NegInf | Fin real | PosInf | NaN

definition f8_rank :: "float8 \<Rightarrow> nat \<times> real" where
  "f8_rank x = (case x of NegInf \<Rightarrow> (0, 0) | Fin r \<Rightarrow> (1, r) | PosInf \<Rightarrow> (2, 0) | NaN \<Rightarrow> (3, 0))"

definition f8_gt :: "float8 \<Rightarrow> float8 \<Rightarrow> bool" where
  "f8_gt a b \<longleftrightarrow> f8_rank b < f8_rank a"

fun f8_minus :: "float8 \<Rightarrow> float8 \<Rightarrow> float8" where
  "f8_minus NaN b = NaN"
| "f8_minus a NaN = NaN"
| "f8_minus (Fin a) (Fin b) = Fin (a - b)"
| "f8_minus PosInf PosInf = NaN"
| "f8_minus NegInf NegInf = NaN"
| "f8_minus PosInf b = PosInf"
| "f8_minus NegInf b = NegInf"
| "f8_minus a PosInf = NegInf"
| "f8_minus a NegInf = PosInf"

section \<open>SQL expressions with NULL\<close>

text \<open>
  A nullable SQL value is an option; a condition has three values, \<open>Some True\<close>,
  \<open>Some False\<close> and \<open>None\<close> (unknown). Comparison and arithmetic operators are
  strict: a NULL operand gives NULL. \<open>AND\<close> is false as soon as one operand is false.
\<close>

definition sql_eq :: "'a option \<Rightarrow> 'a option \<Rightarrow> bool option" where
  "sql_eq a b = (case a of None \<Rightarrow> None
     | Some x \<Rightarrow> (case b of None \<Rightarrow> None | Some y \<Rightarrow> Some (x = y)))"

definition sql_gt :: "float8 option \<Rightarrow> float8 option \<Rightarrow> bool option" where
  "sql_gt a b = (case a of None \<Rightarrow> None
     | Some x \<Rightarrow> (case b of None \<Rightarrow> None | Some y \<Rightarrow> Some (f8_gt x y)))"

definition sql_minus :: "float8 option \<Rightarrow> float8 option \<Rightarrow> float8 option" where
  "sql_minus a b = (case a of None \<Rightarrow> None
     | Some x \<Rightarrow> (case b of None \<Rightarrow> None | Some y \<Rightarrow> Some (f8_minus x y)))"

definition sql_and :: "bool option \<Rightarrow> bool option \<Rightarrow> bool option" where
  "sql_and p q =
     (if p = Some False \<or> q = Some False then Some False
      else if p = Some True \<and> q = Some True then Some True
      else None)"

text \<open>
  The operator \<open><=>\<close> (cosine distance) belongs to the pgvector extension, not to the
  repository. On two vectors it yields a \<open>float8\<close>, which may be NaN, or raises an
  error: it is a parameter \<open>vdist\<close> of everything below, of type
  \<open>vector \<Rightarrow> vector \<Rightarrow> error + float8\<close>. The operator is strict: with a NULL operand
  it is not called and the result is NULL.
\<close>

definition cosine_op ::
  "(vector \<Rightarrow> vector \<Rightarrow> error + float8) \<Rightarrow> vector option \<Rightarrow> vector option \<Rightarrow> error + float8 option" where
  "cosine_op vdist a b =
     (case a of
        None \<Rightarrow> Inr None
      | Some x \<Rightarrow> (case b of
                    None \<Rightarrow> Inr None
                  | Some y \<Rightarrow> err_bind (vdist x y) (\<lambda>d. Inr (Some d))))"

text \<open>
  The operator as pgvector implements it, for the examples: vectors of different
  dimensions are an error; otherwise the distance is
  \<open>1 - a\<bullet>b / sqrt ((a\<bullet>a) (b\<bullet>b))\<close> with the quotient kept in \<open>[-1, 1]\<close>, and NaN when the
  quotient is \<open>0/0\<close>, that is when one of the vectors is the zero vector.
\<close>

definition dot :: "vector \<Rightarrow> vector \<Rightarrow> real" where
  "dot a b = sum_list (map2 (*) a b)"

definition cosine_distance :: "vector \<Rightarrow> vector \<Rightarrow> error + float8" where
  "cosine_distance a b =
     (if length a \<noteq> length b then Inl (DifferentDimensions (length a) (length b))
      else if dot a a * dot b b = 0 then Inr NaN
      else Inr (Fin (1 - max (-1) (min 1 (dot a b / sqrt (dot a a * dot b b))))))"

section \<open>Row-level security\<close>

text \<open>
  \<open>CREATE POLICY user_isolation_policy ON memories FOR ALL USING (auth.uid() = user_id)\<close>.
  A session has the value of \<open>auth.uid()\<close> (NULL when nobody is signed in) and may
  bypass row-level security (the table's owner, a role with \<open>BYPASSRLS\<close>). A scan of
  the table by a session that does not bypass it yields the rows for which the policy
  expression is true.
\<close>

record session =
  auth_uid :: "uuid option"
  bypass_rls :: bool

definition user_isolation_policy :: "session \<Rightarrow> memories \<Rightarrow> bool option" where
  "user_isolation_policy sess m = sql_eq (auth_uid sess) (Some (m_user_id m))"

definition scan_memories :: "session \<Rightarrow> memories list \<Rightarrow> memories list" where
  "scan_memories sess tbl =
     (if bypass_rls sess then tbl
      else filter (\<lambda>m. user_isolation_policy sess m = Some True) tbl)"

section \<open>The function \<open>match_memories\<close>\<close>

text \<open>
  The body of the function is one statement,
  \<^verbatim>\<open>
  RETURN QUERY
  SELECT m.id, m.user_id, m.raw_text, m.summary, m.importance, m.created_at,
         m.last_accessed_at, m.access_count, m.summary_count,
         1 - (m.embedding <=> query_embedding) AS similarity
  FROM memories m
  WHERE m.user_id = p_user_id
    AND 1 - (m.embedding <=> query_embedding) > match_threshold
  ORDER BY m.embedding <=> query_embedding
  LIMIT match_count;
  \<close>
  (the schema file goes on to the index declarations without the closing \<open>END\<close> of
  the body; the statement is embedded as written).
  The function is not declared \<open>STRICT\<close>, so each of its four arguments may be NULL,
  and the dimension in the declared type \<open>vector(1536)\<close> of \<open>query_embedding\<close> is not
  enforced on an argument.

  The table is a list of rows in the order the scan meets them, which SQL leaves
  open. For each row the conjuncts of \<open>WHERE\<close> are evaluated in the order written,
  the second only if the first is true; a row passes if the condition is true. An
  error raised by \<open><=>\<close> on a row ends the statement. \<open>ORDER BY\<close> is a stable sort of
  the rows that pass, ascending in the order of \<open>float8\<close> with NULL keys last; rows
  with equal keys stay in scan order, so that, as the scan order ranges over all
  lists, every order the statement allows for them is covered. \<open>LIMIT NULL\<close> is no
  limit; the limit is computed before the first row is fetched, so a negative
  \<open>LIMIT\<close> is an error and \<open>LIMIT 0\<close> an empty result whatever the rows.
\<close>

record match_row =
  r_id :: int
  r_user_id :: uuid
  r_raw_text :: string
  r_summary :: string
  r_importance :: real
  r_created_at :: timestamptz
  r_last_accessed_at :: timestamptz
  r_access_count :: int
  r_summary_count :: int
  r_similarity :: "float8 option"

definition distance_expr ::
  "(vector \<Rightarrow> vector \<Rightarrow> error + float8) \<Rightarrow> vector option \<Rightarrow> memories \<Rightarrow> error + float8 option" where
  "distance_expr vdist query_embedding m = cosine_op vdist (m_embedding m) query_embedding"

definition similarity_expr ::
  "(vector \<Rightarrow> vector \<Rightarrow> error + float8) \<Rightarrow> vector option \<Rightarrow> memories \<Rightarrow> error + float8 option" where
  "similarity_expr vdist query_embedding m =
     err_bind (distance_expr vdist query_embedding m) (\<lambda>d. Inr (sql_minus (Some (Fin 1)) d))"

text \<open>
  When \<open>m.user_id = p_user_id\<close> is not true the condition is not true and the second
  conjunct is not evaluated; the value returned for the condition is then that of
  the first conjunct.
\<close>

definition where_clause ::
  "(vector \<Rightarrow> vector \<Rightarrow> error + float8) \<Rightarrow> vector option \<Rightarrow> float8 option \<Rightarrow> uuid option \<Rightarrow>
     memories \<Rightarrow> error + bool option" where
  "where_clause vdist query_embedding match_threshold p_user_id m =
     (let owner = sql_eq (Some (m_user_id m)) p_user_id in
      if owner = Some True
      then err_bind (similarity_expr vdist query_embedding m)
             (\<lambda>s. Inr (sql_and owner (sql_gt s match_threshold)))
      else Inr owner)"

fun filter_rows :: "('a \<Rightarrow> error + bool option) \<Rightarrow> 'a list \<Rightarrow> error + 'a list" where
  "filter_rows cond [] = Inr []"
| "filter_rows cond (m # ms) =
     err_bind (cond m) (\<lambda>b.
     err_bind (filter_rows cond ms) (\<lambda>rest.
       Inr (if b = Some True then m # rest else rest)))"

fun map_rows :: "('a \<Rightarrow> error + 'b) \<Rightarrow> 'a list \<Rightarrow> error + 'b list" where
  "map_rows f [] = Inr []"
| "map_rows f (m # ms) =
     err_bind (f m) (\<lambda>y. err_bind (map_rows f ms) (\<lambda>ys. Inr (y # ys)))"

definition order_key :: "float8 option \<Rightarrow> nat \<times> real" where
  "order_key k = (case k of None \<Rightarrow> (4, 0) | Some d \<Rightarrow> f8_rank d)"

definition select_row ::
  "(vector \<Rightarrow> vector \<Rightarrow> error + float8) \<Rightarrow> vector option \<Rightarrow> memories \<Rightarrow> error + match_row" where
  "select_row vdist query_embedding m =
     err_bind (similarity_expr vdist query_embedding m) (\<lambda>s. Inr
       \<lparr> r_id = m_id m, r_user_id = m_user_id m, r_raw_text = m_raw_text m,
         r_summary = m_summary m, r_importance = m_importance m,
         r_created_at = m_created_at m, r_last_accessed_at = m_last_accessed_at m,
         r_access_count = m_access_count m, r_summary_count = m_summary_count m,
         r_similarity = s \<rparr>)"

text \<open>The rows that pass \<open>WHERE\<close>, each with its sort key, in the order of \<open>ORDER BY\<close>.\<close>

definition matching_rows ::
  "(vector \<Rightarrow> vector \<Rightarrow> error + float8) \<Rightarrow> session \<Rightarrow> memories list \<Rightarrow> vector option \<Rightarrow>
     float8 option \<Rightarrow> uuid option \<Rightarrow> error + (float8 option \<times> memories) list" where
  "matching_rows vdist sess tbl query_embedding match_threshold p_user_id =
     err_bind (filter_rows (where_clause vdist query_embedding match_threshold p_user_id)
                 (scan_memories sess tbl)) (\<lambda>passed.
     err_bind (map_rows (\<lambda>m. err_bind (distance_expr vdist query_embedding m) (\<lambda>d. Inr (d, m)))
                 passed) (\<lambda>keyed.
       Inr (sort_key (\<lambda>km. order_key (fst km)) keyed)))"

definition select_rows ::
  "(vector \<Rightarrow> vector \<Rightarrow> error + float8) \<Rightarrow> session \<Rightarrow> memories list \<Rightarrow> vector option \<Rightarrow>
     float8 option \<Rightarrow> uuid option \<Rightarrow> error + match_row list" where
  "select_rows vdist sess tbl query_embedding match_threshold p_user_id =
     err_bind (matching_rows vdist sess tbl query_embedding match_threshold p_user_id)
       (\<lambda>keyed. map_rows (\<lambda>km. select_row vdist query_embedding (snd km)) keyed)"

definition match_memories ::
  "(vector \<Rightarrow> vector \<Rightarrow> error + float8) \<Rightarrow> session \<Rightarrow> memories list \<Rightarrow>
     vector option \<Rightarrow> float8 option \<Rightarrow> int option \<Rightarrow> uuid option \<Rightarrow> error + match_row list" where
  "match_memories vdist sess tbl query_embedding match_threshold match_count p_user_id =
     (case match_count of
        None \<Rightarrow> select_rows vdist sess tbl query_embedding match_threshold p_user_id
      | Some k \<Rightarrow>
          if k < 0 then Inl LimitNegative
          else if k = 0 then Inr []
          else err_bind (select_rows vdist sess tbl query_embedding match_threshold p_user_id)
                 (\<lambda>rows. Inr (take (nat k) rows)))"

text \<open>
  A call of the function as a step on the database: the statement is a \<open>SELECT\<close>, so
  the table after the call is the table before it.
\<close>

definition call_match_memories ::
  "(vector \<Rightarrow> vector \<Rightarrow> error + float8) \<Rightarrow> session \<Rightarrow> vector option \<Rightarrow> float8 option \<Rightarrow>
     int option \<Rightarrow> uuid option \<Rightarrow> memories list \<Rightarrow> memories list \<times> (error + match_row list)" where
  "call_match_memories vdist sess query_embedding match_threshold match_count p_user_id tbl =
     (tbl, match_memories vdist sess tbl query_embedding match_threshold match_count p_user_id)"

section \<open>Inserting a row\<close>

text \<open>
  \<^verbatim>\<open>
  CREATE TABLE IF NOT EXISTS memories (
    id bigint primary key generated always as identity,
    user_id uuid not null,
    raw_text text not null,
    summary text not null,
    embedding vector(1536),
    importance float default 1.0 not null,
    access_count int default 0 not null,
    summary_count int default 0 not null,
    created_at timestamptz default now() not null,
    last_accessed_at timestamptz default now() not null
  );
  \<close>
  An \<open>INSERT\<close> gives each column but \<open>id\<close> either nothing (the column is left out
  or written \<open>DEFAULT\<close>) or a value, which may be NULL. A column left out takes its
  \<open>DEFAULT\<close> expression, NULL when it has none. \<open>now()\<close> is the start time of the
  transaction, one value for the whole statement; it is the argument \<open>now\<close>. The
  \<open>id\<close> is generated by the identity sequence, whose next value is the argument
  \<open>new_id\<close>. The value of \<open>embedding\<close> is coerced to \<open>vector(1536)\<close>, which fails
  for a vector of another dimension; then the \<open>not null\<close> constraints and the primary
  key are checked. A failed statement leaves the table as it was: the result is the
  error alone.
\<close>

datatype 'a col = Default | Val "'a option"

record memories_insert =
  i_user_id :: "uuid col"
  i_raw_text :: "string col"
  i_summary :: "string col"
  i_embedding :: "vector col"
  i_importance :: "real col"
  i_access_count :: "int col"
  i_summary_count :: "int col"
  i_created_at :: "timestamptz col"
  i_last_accessed_at :: "timestamptz col"

definition col_value :: "'a option \<Rightarrow> 'a col \<Rightarrow> 'a option" where
  "col_value dflt c = (case c of Default \<Rightarrow> dflt | Val v \<Rightarrow> v)"

definition vector_typmod :: "vector option \<Rightarrow> error + vector option" where
  "vector_typmod v =
     (case v of
        None \<Rightarrow> Inr None
      | Some x \<Rightarrow> if length x = embedding_dim then Inr (Some x)
                 else Inl (DimensionMismatch (length x)))"

definition not_null :: "string \<Rightarrow> 'a option \<Rightarrow> error + 'a" where
  "not_null column v = (case v of None \<Rightarrow> Inl (NotNullViolation column) | Some x \<Rightarrow> Inr x)"

definition insert_memories ::
  "int \<Rightarrow> timestamptz \<Rightarrow> memories_insert \<Rightarrow> memories list \<Rightarrow> error + memories list" where
  "insert_memories new_id now ins tbl =
     err_bind (vector_typmod (col_value None (i_embedding ins))) (\<lambda>emb.
     err_bind (not_null ''user_id'' (col_value None (i_user_id ins))) (\<lambda>uid.
     err_bind (not_null ''raw_text'' (col_value None (i_raw_text ins))) (\<lambda>raw.
     err_bind (not_null ''summary'' (col_value None (i_summary ins))) (\<lambda>summ.
     err_bind (not_null ''importance'' (col_value (Some 1.0) (i_importance ins))) (\<lambda>imp.
     err_bind (not_null ''access_count'' (col_value (Some 0) (i_access_count ins))) (\<lambda>acc.
     err_bind (not_null ''summary_count'' (col_value (Some 0) (i_summary_count ins))) (\<lambda>sc.
     err_bind (not_null ''created_at'' (col_value (Some now) (i_created_at ins))) (\<lambda>created.
     err_bind (not_null ''last_accessed_at'' (col_value (Some now) (i_last_accessed_at ins))) (\<lambda>accessed.
       if new_id \<in> m_id ` set tbl then Inl UniqueViolation
       else Inr (tbl @
         [\<lparr> m_id = new_id, m_user_id = uid, m_raw_text = raw, m_summary = summ,
            m_embedding = emb, m_importance = imp, m_access_count = acc,
            m_summary_count = sc, m_created_at = created,
            m_last_accessed_at = accessed \<rparr>]))))))))))"

text \<open>
  Modelled from the spec: the statement of the ingest path, which is not among the
  source files. Its input is \<open>{owner_id, raw_text, summary, embedding}\<close>: it gives
  these four columns and leaves every other column out.
\<close>

definition ingest_columns :: "uuid \<Rightarrow> string \<Rightarrow> string \<Rightarrow> vector \<Rightarrow> memories_insert" where
  "ingest_columns owner_id raw_text summary embedding =
     \<lparr> i_user_id = Val (Some owner_id), i_raw_text = Val (Some raw_text),
       i_summary = Val (Some summary), i_embedding = Val (Some embedding),
       i_importance = Default, i_access_count = Default, i_summary_count = Default,
       i_created_at = Default, i_last_accessed_at = Default \<rparr>"

text \<open>What the column type \<open>vector(1536)\<close> admits in a stored row.\<close>

definition embedding_ok :: "memories \<Rightarrow> bool" where
  "embedding_ok m = (case m_embedding m of None \<Rightarrow> True | Some v \<Rightarrow> length v = embedding_dim)"

section \<open>Retention, resurfacing and reinforcement\<close>

text \<open>
  The server that computes \<open>retention_score\<close> and \<open>is_resurfaced\<close> (the client reads
  both fields of every memory it shows) and that updates \<open>importance\<close>,
  \<open>access_count\<close> and \<open>last_accessed_at\<close> is not among the source files. The
  definitions of this section follow the specification.
\<close>

text \<open>
  Modelled from the spec: the configuration constants \<open>base_stability\<close> (in days),
  \<open>importance_cap\<close>, \<open>resurface_threshold\<close>, \<open>resurface_importance_floor\<close> and the fixed
  reinforcement increment, "an explicit immutable configuration object".
\<close>

record config =
  base_stability :: real
  importance_cap :: real
  resurface_threshold :: real
  resurface_importance_floor :: real
  reinforcement_increment :: real

text \<open>
  Modelled from the spec: \<open>elapsed_days = max(0, now - last_accessed_at)\<close> in days,
  fractional allowed. A day is 86400000000 microseconds.
\<close>

definition usec_per_day :: int where
  "usec_per_day = 86400000000"

definition elapsed_days :: "timestamptz \<Rightarrow> timestamptz \<Rightarrow> real" where
  "elapsed_days last_accessed_at now =
     max 0 (real_of_int (now - last_accessed_at) / real_of_int usec_per_day)"

text \<open>Modelled from the spec: \<open>stability = base_stability * (1 + access_count)\<close>.\<close>

definition stability :: "config \<Rightarrow> int \<Rightarrow> real" where
  "stability cfg access_count = base_stability cfg * (1 + real_of_int access_count)"

text \<open>
  Modelled from the spec:
  \<open>importance_normalized = min(importance, importance_cap) / importance_cap\<close>.
\<close>

definition importance_normalized :: "config \<Rightarrow> real \<Rightarrow> real" where
  "importance_normalized cfg importance =
     min importance (importance_cap cfg) / importance_cap cfg"

text \<open>
  Modelled from the spec: the Retention Scorer,
  \<open>score(importance, access_count, last_accessed_at, now)\<close>, with
  \<open>retention = importance_normalized * exp(-elapsed_days / stability)\<close>.
\<close>

definition score :: "config \<Rightarrow> real \<Rightarrow> int \<Rightarrow> timestamptz \<Rightarrow> timestamptz \<Rightarrow> real" where
  "score cfg importance access_count last_accessed_at now =
     importance_normalized cfg importance *
       exp (- elapsed_days last_accessed_at now / stability cfg access_count)"

definition retention_score :: "config \<Rightarrow> timestamptz \<Rightarrow> memories \<Rightarrow> real" where
  "retention_score cfg now m =
     score cfg (m_importance m) (m_access_count m) (m_last_accessed_at m) now"

text \<open>
  Modelled from the spec: the Resurfacing Selector. It evaluates the whole Memory set
  of the owner; a Memory qualifies when \<open>retention_score < resurface_threshold\<close> and
  \<open>importance \<ge> resurface_importance_floor\<close>; the selection is the \<open>N\<close> qualifying
  Memories of lowest \<open>retention_score\<close>, ties broken by \<open>created_at\<close> ascending. It is
  read-only on the store and sets the transient flag \<open>is_resurfaced\<close> on the objects
  it returns.
\<close>

record resurfaced =
  rs_memory :: memories
  rs_retention_score :: real
  rs_is_resurfaced :: bool

definition qualifies :: "config \<Rightarrow> timestamptz \<Rightarrow> memories \<Rightarrow> bool" where
  "qualifies cfg now m \<longleftrightarrow>
     retention_score cfg now m < resurface_threshold cfg \<and>
     resurface_importance_floor cfg \<le> m_importance m"

definition qualifying :: "config \<Rightarrow> timestamptz \<Rightarrow> uuid \<Rightarrow> memories list \<Rightarrow> memories list" where
  "qualifying cfg now owner_id store =
     filter (qualifies cfg now) (filter (\<lambda>m. m_user_id m = owner_id) store)"

definition resurface_key :: "config \<Rightarrow> timestamptz \<Rightarrow> memories \<Rightarrow> real \<times> timestamptz" where
  "resurface_key cfg now m = (retention_score cfg now m, m_created_at m)"

definition mark_resurfaced :: "config \<Rightarrow> timestamptz \<Rightarrow> memories \<Rightarrow> resurfaced" where
  "mark_resurfaced cfg now m =
     \<lparr> rs_memory = m, rs_retention_score = retention_score cfg now m, rs_is_resurfaced = True \<rparr>"

definition resurface ::
  "config \<Rightarrow> timestamptz \<Rightarrow> uuid \<Rightarrow> nat \<Rightarrow> memories list \<Rightarrow> memories list \<times> resurfaced list" where
  "resurface cfg now owner_id n store =
     (store,
      map (mark_resurfaced cfg now)
        (take n (sort_key (resurface_key cfg now) (qualifying cfg now owner_id store))))"

text \<open>
  Modelled from the spec: the Reinforcement Updater, \<open>reinforce(owner_id, id, now)\<close>.
  In one step \<open>access_count += 1\<close>, \<open>last_accessed_at = now\<close> only if \<open>now\<close> is strictly
  later than the current value, and \<open>importance\<close> increases by the fixed increment,
  capped at \<open>importance_cap\<close>: the cap bounds the increase, so the importance moves
  up to \<open>min (importance + increment) importance_cap\<close> and never down ("repeated calls
  never decrease \<open>importance\<close>"). It fails with \<open>NotFound\<close> if the Memory or owner
  does not match, and then writes nothing. \<open>get(owner_id, id)\<close> returns the Memory or
  \<open>NotFound\<close>.
\<close>

definition reinforce_memory :: "config \<Rightarrow> timestamptz \<Rightarrow> memories \<Rightarrow> memories" where
  "reinforce_memory cfg now m =
     m \<lparr> m_access_count := m_access_count m + 1,
         m_last_accessed_at := (if m_last_accessed_at m < now then now else m_last_accessed_at m),
         m_importance := max (m_importance m)
           (min (m_importance m + reinforcement_increment cfg) (importance_cap cfg)) \<rparr>"

fun get_memory :: "uuid \<Rightarrow> int \<Rightarrow> memories list \<Rightarrow> error + memories" where
  "get_memory owner_id i [] = Inl NotFound"
| "get_memory owner_id i (m # ms) =
     (if m_id m = i \<and> m_user_id m = owner_id then Inr m else get_memory owner_id i ms)"

fun reinforce :: "config \<Rightarrow> uuid \<Rightarrow> int \<Rightarrow> timestamptz \<Rightarrow> memories list \<Rightarrow> error + memories list" where
  "reinforce cfg owner_id i now [] = Inl NotFound"
| "reinforce cfg owner_id i now (m # ms) =
     (if m_id m = i \<and> m_user_id m = owner_id then Inr (reinforce_memory cfg now m # ms)
      else (case reinforce cfg owner_id i now ms of
              Inl e \<Rightarrow> Inl e
            | Inr ms' \<Rightarrow> Inr (m # ms')))"

text \<open>A sequence of calls on the same Memory, at the given times; the first failure stops it.\<close>

fun reinforce_calls ::
  "config \<Rightarrow> uuid \<Rightarrow> int \<Rightarrow> timestamptz list \<Rightarrow> memories list \<Rightarrow> error + memories list" where
  "reinforce_calls cfg owner_id i [] store = Inr store"
| "reinforce_calls cfg owner_id i (now # nows) store =
     (case reinforce cfg owner_id i now store of
        Inl e \<Rightarrow> Inl e
      | Inr store' \<Rightarrow> reinforce_calls cfg owner_id i nows store')"

section \<open>Example data\<close>

text \<open>
  Two owners and a table of seven rows, in scan order. The vectors have 1536
  components: \<open>vec2 x y\<close> has the components \<open>x\<close>, \<open>y\<close> and 1534 zeros, and row 7
  holds the zero vector. Against the query vector \<open>vec2 3 4\<close> the cosine distances
  are \<open>1/25\<close>, \<open>0\<close>, NULL, \<open>1\<close>, \<open>0\<close>, \<open>1/25\<close> and NaN.
\<close>

definition alice :: uuid where "alice = 1"
definition bob :: uuid where "bob = 2"

definition vec2 :: "real \<Rightarrow> real \<Rightarrow> vector" where
  "vec2 x y = x # y # replicate 1534 0"

definition zero_vector :: vector where
  "zero_vector = replicate 1536 0"

definition mem :: "int \<Rightarrow> uuid \<Rightarrow> vector option \<Rightarrow> timestamptz \<Rightarrow> memories" where
  "mem i owner_id e t =
     \<lparr> m_id = i, m_user_id = owner_id, m_raw_text = ''text'', m_summary = ''summary'',
       m_embedding = e, m_importance = 1, m_access_count = 0, m_summary_count = 0,
       m_created_at = t, m_last_accessed_at = t \<rparr>"

definition example_table :: "memories list" where
  "example_table =
     [mem 1 alice (Some (vec2 4 3)) 100,
      mem 2 bob (Some (vec2 3 4)) 200,
      mem 3 alice None 300,
      mem 4 alice (Some (vec2 (-4) 3)) 400,
      mem 5 alice (Some (vec2 3 4)) 500,
      mem 6 alice (Some (vec2 4 3)) 600,
      mem 7 alice (Some zero_vector) 700]"

definition alice_session :: session where
  "alice_session = \<lparr> auth_uid = Some alice, bypass_rls = False \<rparr>"

text \<open>The row of the result for a row of the table and a similarity.\<close>

definition row_of :: "memories \<Rightarrow> float8 \<Rightarrow> match_row" where
  "row_of m s =
     \<lparr> r_id = m_id m, r_user_id = m_user_id m, r_raw_text = m_raw_text m,
       r_summary = m_summary m, r_importance = m_importance m,
       r_created_at = m_created_at m, r_last_accessed_at = m_last_accessed_at m,
       r_access_count = m_access_count m, r_summary_count = m_summary_count m,
       r_similarity = Some s \<rparr>"

definition example_config :: config where
  "example_config =
     \<lparr> base_stability = 7, importance_cap = 5, resurface_threshold = 1/2,
       resurface_importance_floor = 1, reinforcement_increment = 1/10 \<rparr>"

text \<open>
  A store for the resurfacing examples, evaluated at time 1000: every Memory was last
  accessed at 1000, so its retention score is its normalized importance. With the cap
  5 the scores are \<open>2/5\<close>, \<open>1/5\<close>, \<open>3/5\<close>, \<open>1/10\<close>, \<open>1/5\<close> and \<open>1/5\<close>.
\<close>

definition fading :: "int \<Rightarrow> uuid \<Rightarrow> real \<Rightarrow> timestamptz \<Rightarrow> memories" where
  "fading i owner_id imp t =
     (mem i owner_id None t) \<lparr> m_importance := imp, m_last_accessed_at := 1000 \<rparr>"

definition example_store :: "memories list" where
  "example_store =
     [fading 1 alice 2 300,
      fading 2 alice 1 200,
      fading 3 alice 3 400,
      fading 4 alice (1/2) 50,
      fading 5 alice 1 100,
      fading 6 bob 1 10]"

section \<open>Properties of \<open>match_memories\<close>\<close>

lemma err_bind_Inr: "err_bind r f = Inr y \<longleftrightarrow> (\<exists>x. r = Inr x \<and> f x = Inr y)"
  by (cases r) (simp_all add: err_bind_def)

lemma err_bind_simps [simp]:
  "err_bind (Inl e) f = Inl e" "err_bind (Inr x) f = f x"
  by (simp_all add: err_bind_def)

lemma f8_minus_one:
  "f8_minus (Fin 1) d = (case d of NegInf \<Rightarrow> PosInf | Fin r \<Rightarrow> Fin (1 - r) | PosInf \<Rightarrow> NegInf | NaN \<Rightarrow> NaN)"
  by (cases d) simp_all

lemma f8_gt_Fin [simp]: "f8_gt (Fin x) (Fin y) \<longleftrightarrow> y < x"
  by (simp add: f8_gt_def f8_rank_def)

lemma f8_gt_NaN [simp]: "f8_gt NaN (Fin y)" "\<not> f8_gt a NaN"
  by (simp_all add: f8_gt_def f8_rank_def split: float8.splits)

lemma sql_eq_true: "sql_eq a b = Some True \<longleftrightarrow> (\<exists>x. a = Some x \<and> b = Some x)"
  by (auto simp: sql_eq_def split: option.splits)

lemma sql_gt_true: "sql_gt a b = Some True \<longleftrightarrow> (\<exists>x y. a = Some x \<and> b = Some y \<and> f8_gt x y)"
  by (auto simp: sql_gt_def split: option.splits)

lemma sql_and_true: "sql_and p q = Some True \<longleftrightarrow> p = Some True \<and> q = Some True"
  by (auto simp: sql_and_def)

lemma sql_minus_Some:
  "sql_minus a b = Some z \<longleftrightarrow> (\<exists>x y. a = Some x \<and> b = Some y \<and> z = f8_minus x y)"
  by (auto simp: sql_minus_def split: option.splits)

lemma cosine_op_Some:
  "cosine_op vdist a b = Inr (Some d) \<longleftrightarrow> (\<exists>x y. a = Some x \<and> b = Some y \<and> vdist x y = Inr d)"
  by (auto simp: cosine_op_def err_bind_Inr split: option.splits)

lemma similarity_expr_Some:
  "similarity_expr vdist q m = Inr (Some s) \<longleftrightarrow>
     (\<exists>e qv d. m_embedding m = Some e \<and> q = Some qv \<and> vdist e qv = Inr d \<and>
        s = f8_minus (Fin 1) d)"
proof
  assume "similarity_expr vdist q m = Inr (Some s)"
  then obtain d0 where "distance_expr vdist q m = Inr d0" "sql_minus (Some (Fin 1)) d0 = Some s"
    by (auto simp: similarity_expr_def err_bind_Inr)
  then show "\<exists>e qv d. m_embedding m = Some e \<and> q = Some qv \<and> vdist e qv = Inr d \<and>
        s = f8_minus (Fin 1) d"
    by (auto simp: sql_minus_Some distance_expr_def cosine_op_Some)
next
  assume "\<exists>e qv d. m_embedding m = Some e \<and> q = Some qv \<and> vdist e qv = Inr d \<and>
        s = f8_minus (Fin 1) d"
  then show "similarity_expr vdist q m = Inr (Some s)"
    by (auto simp: similarity_expr_def distance_expr_def cosine_op_def sql_minus_def)
qed

lemma where_clause_true:
  "where_clause vdist q thr uid m = Inr (Some True) \<longleftrightarrow>
     (\<exists>e qv t d. m_embedding m = Some e \<and> q = Some qv \<and> thr = Some t \<and>
        uid = Some (m_user_id m) \<and> vdist e qv = Inr d \<and> f8_gt (f8_minus (Fin 1) d) t)"
proof
  assume w: "where_clause vdist q thr uid m = Inr (Some True)"
  then have o: "sql_eq (Some (m_user_id m)) uid = Some True"
    by (auto simp: where_clause_def Let_def split: if_splits)
  with w obtain s where "similarity_expr vdist q m = Inr s" "sql_gt s thr = Some True"
    by (auto simp: where_clause_def Let_def err_bind_Inr sql_and_true)
  then obtain x t where "similarity_expr vdist q m = Inr (Some x)" "thr = Some t" "f8_gt x t"
    by (auto simp: sql_gt_true)
  with o show "\<exists>e qv t d. m_embedding m = Some e \<and> q = Some qv \<and> thr = Some t \<and>
        uid = Some (m_user_id m) \<and> vdist e qv = Inr d \<and> f8_gt (f8_minus (Fin 1) d) t"
    by (auto simp: similarity_expr_Some sql_eq_true)
next
  assume "\<exists>e qv t d. m_embedding m = Some e \<and> q = Some qv \<and> thr = Some t \<and>
        uid = Some (m_user_id m) \<and> vdist e qv = Inr d \<and> f8_gt (f8_minus (Fin 1) d) t"
  then obtain e qv t d where *: "m_embedding m = Some e" "q = Some qv" "thr = Some t"
    "uid = Some (m_user_id m)" "vdist e qv = Inr d" "f8_gt (f8_minus (Fin 1) d) t"
    by blast
  then have "similarity_expr vdist q m = Inr (Some (f8_minus (Fin 1) d))"
    by (auto simp: similarity_expr_Some)
  with * show "where_clause vdist q thr uid m = Inr (Some True)"
    by (simp add: where_clause_def sql_eq_def sql_gt_def sql_and_def)
qed

lemma passing_row:
  assumes "where_clause vdist q thr uid m = Inr (Some True)"
  obtains e qv t d where "m_embedding m = Some e" and "q = Some qv" and "thr = Some t"
    and "uid = Some (m_user_id m)" and "vdist e qv = Inr d"
    and "f8_gt (f8_minus (Fin 1) d) t"
    and "distance_expr vdist q m = Inr (Some d)"
    and "similarity_expr vdist q m = Inr (Some (f8_minus (Fin 1) d))"
proof -
  from assms obtain e qv t d where *: "m_embedding m = Some e" "q = Some qv" "thr = Some t"
    "uid = Some (m_user_id m)" "vdist e qv = Inr d" "f8_gt (f8_minus (Fin 1) d) t"
    unfolding where_clause_true by blast
  then have "distance_expr vdist q m = Inr (Some d)"
    by (simp add: distance_expr_def cosine_op_def)
  moreover from this have "similarity_expr vdist q m = Inr (Some (f8_minus (Fin 1) d))"
    by (simp add: similarity_expr_def sql_minus_def)
  ultimately show ?thesis using * that by blast
qed

lemma filter_rows_Inr:
  "filter_rows cond ms = Inr rs \<Longrightarrow> rs = filter (\<lambda>m. cond m = Inr (Some True)) ms"
  by (induction ms arbitrary: rs) (auto simp: err_bind_Inr)

lemma map_rows_Inr:
  "map_rows f ms = Inr ys \<longleftrightarrow> list_all2 (\<lambda>m y. f m = Inr y) ms ys"
proof (induction ms arbitrary: ys)
  case Nil
  then show ?case by auto
next
  case (Cons m ms)
  then show ?case by (cases ys) (auto simp: err_bind_Inr)
qed

lemma scan_memories_subset: "set (scan_memories sess tbl) \<subseteq> set tbl"
  by (auto simp: scan_memories_def)

text \<open>
  The sorted list behind a result: its rows come from the scan and pass \<open>WHERE\<close>,
  each is paired with its distance, and the keys are ascending.
\<close>

lemma matching_rows_Inr:
  assumes "matching_rows vdist sess tbl q thr uid = Inr keyed"
  shows "sorted (map (\<lambda>km. order_key (fst km)) keyed)"
    and "\<forall>km \<in> set keyed. snd km \<in> set (scan_memories sess tbl) \<and>
           where_clause vdist q thr uid (snd km) = Inr (Some True) \<and>
           distance_expr vdist q (snd km) = Inr (fst km)"
proof -
  from assms obtain passed pairs
    where p: "filter_rows (where_clause vdist q thr uid) (scan_memories sess tbl) = Inr passed"
      and k: "map_rows (\<lambda>m. err_bind (distance_expr vdist q m) (\<lambda>d. Inr (d, m))) passed = Inr pairs"
      and s: "keyed = sort_key (\<lambda>km. order_key (fst km)) pairs"
    by (auto simp: matching_rows_def err_bind_Inr)
  show "sorted (map (\<lambda>km. order_key (fst km)) keyed)" by (simp add: s)
  from k have l: "list_all2 (\<lambda>m km. distance_expr vdist q m = Inr (fst km) \<and> snd km = m) passed pairs"
    unfolding map_rows_Inr by (rule list_all2_mono) (auto simp: err_bind_Inr)
  have "snd km \<in> set passed \<and> distance_expr vdist q (snd km) = Inr (fst km)"
    if "km \<in> set pairs" for km
  proof -
    from that obtain j where "j < length pairs" "pairs ! j = km" by (auto simp: in_set_conv_nth)
    with l have "passed ! j \<in> set passed"
      "distance_expr vdist q (passed ! j) = Inr (fst km) \<and> snd km = passed ! j"
      by (auto simp: list_all2_conv_all_nth)
    then show ?thesis by simp
  qed
  moreover have "m \<in> set (scan_memories sess tbl) \<and> where_clause vdist q thr uid m = Inr (Some True)"
    if "m \<in> set passed" for m
    using that filter_rows_Inr [OF p] by simp
  ultimately show "\<forall>km \<in> set keyed. snd km \<in> set (scan_memories sess tbl) \<and>
           where_clause vdist q thr uid (snd km) = Inr (Some True) \<and>
           distance_expr vdist q (snd km) = Inr (fst km)"
    by (auto simp: s)
qed

lemma match_memories_Inr:
  assumes "match_memories vdist sess tbl q thr cnt uid = Inr rows"
  shows "\<exists>keyed n. sorted (map (\<lambda>km. order_key (fst km)) keyed)
     \<and> (\<forall>km \<in> set keyed. snd km \<in> set (scan_memories sess tbl) \<and>
           where_clause vdist q thr uid (snd km) = Inr (Some True) \<and>
           distance_expr vdist q (snd km) = Inr (fst km))
     \<and> list_all2 (\<lambda>km r. select_row vdist q (snd km) = Inr r) (take n keyed) rows"
proof -
  have sel: "\<exists>keyed. sorted (map (\<lambda>km. order_key (fst km)) keyed)
     \<and> (\<forall>km \<in> set keyed. snd km \<in> set (scan_memories sess tbl) \<and>
           where_clause vdist q thr uid (snd km) = Inr (Some True) \<and>
           distance_expr vdist q (snd km) = Inr (fst km))
     \<and> list_all2 (\<lambda>km r. select_row vdist q (snd km) = Inr r) keyed all"
    if "select_rows vdist sess tbl q thr uid = Inr all" for all
  proof -
    from that obtain keyed where k: "matching_rows vdist sess tbl q thr uid = Inr keyed"
      and m: "map_rows (\<lambda>km. select_row vdist q (snd km)) keyed = Inr all"
      by (auto simp: select_rows_def err_bind_Inr)
    from matching_rows_Inr [OF k] m show ?thesis unfolding map_rows_Inr by blast
  qed
  show ?thesis
  proof (cases cnt)
    case None
    with assms have "select_rows vdist sess tbl q thr uid = Inr rows"
      by (simp add: match_memories_def)
    from sel [OF this] obtain keyed where k: "sorted (map (\<lambda>km. order_key (fst km)) keyed)"
      "\<forall>km \<in> set keyed. snd km \<in> set (scan_memories sess tbl) \<and>
           where_clause vdist q thr uid (snd km) = Inr (Some True) \<and>
           distance_expr vdist q (snd km) = Inr (fst km)"
      "list_all2 (\<lambda>km r. select_row vdist q (snd km) = Inr r) keyed rows"
      by blast
    from k(3) have "list_all2 (\<lambda>km r. select_row vdist q (snd km) = Inr r) (take (length keyed) keyed) rows"
      by simp
    with k(1,2) show ?thesis by blast
  next
    case (Some k)
    show ?thesis
    proof (cases "k = 0")
      case True
      with Some assms have "rows = []" by (simp add: match_memories_def)
      then have "sorted (map (\<lambda>km. order_key (fst km)) ([] :: (float8 option \<times> memories) list))
        \<and> (\<forall>km \<in> set ([] :: (float8 option \<times> memories) list).
             snd km \<in> set (scan_memories sess tbl) \<and>
             where_clause vdist q thr uid (snd km) = Inr (Some True) \<and>
             distance_expr vdist q (snd km) = Inr (fst km))
        \<and> list_all2 (\<lambda>km r. select_row vdist q (snd km) = Inr r) (take 0 []) rows"
        by simp
      then show ?thesis by blast
    next
      case False
      with Some assms obtain all where a: "select_rows vdist sess tbl q thr uid = Inr all"
        and r: "rows = take (nat k) all"
        by (auto simp: match_memories_def err_bind_Inr split: if_splits)
      from sel [OF a] obtain keyed where k: "sorted (map (\<lambda>km. order_key (fst km)) keyed)"
        "\<forall>km \<in> set keyed. snd km \<in> set (scan_memories sess tbl) \<and>
           where_clause vdist q thr uid (snd km) = Inr (Some True) \<and>
           distance_expr vdist q (snd km) = Inr (fst km)"
        "list_all2 (\<lambda>km r. select_row vdist q (snd km) = Inr r) keyed all"
        by blast
      from k(3) have "list_all2 (\<lambda>km r. select_row vdist q (snd km) = Inr r) (take (nat k) keyed) rows"
        unfolding r by (rule list_all2_takeI)
      with k(1,2) show ?thesis by blast
    qed
  qed
qed

lemma match_memories_row:
  assumes "match_memories vdist sess tbl q thr cnt uid = Inr rows" and "r \<in> set rows"
  obtains m where "m \<in> set tbl" and "m \<in> set (scan_memories sess tbl)"
    and "where_clause vdist q thr uid m = Inr (Some True)" and "select_row vdist q m = Inr r"
proof -
  from match_memories_Inr [OF assms(1)] obtain keyed n
    where k: "\<forall>km \<in> set keyed. snd km \<in> set (scan_memories sess tbl) \<and>
           where_clause vdist q thr uid (snd km) = Inr (Some True) \<and>
           distance_expr vdist q (snd km) = Inr (fst km)"
      and l: "list_all2 (\<lambda>km r. select_row vdist q (snd km) = Inr r) (take n keyed) rows"
    by blast
  from assms(2) obtain j where j: "j < length rows" "rows ! j = r" by (auto simp: in_set_conv_nth)
  from list_all2_nthD2 [OF l j(1)] j(2)
  have s: "select_row vdist q (snd (take n keyed ! j)) = Inr r" by simp
  from list_all2_lengthD [OF l] j(1) have "take n keyed ! j \<in> set (take n keyed)"
    by (intro nth_mem) simp
  then have "take n keyed ! j \<in> set keyed" by (blast dest: in_set_takeD)
  with k have "snd (take n keyed ! j) \<in> set (scan_memories sess tbl)"
    "where_clause vdist q thr uid (snd (take n keyed ! j)) = Inr (Some True)" by blast+
  moreover from this scan_memories_subset have "snd (take n keyed ! j) \<in> set tbl" by blast
  ultimately show ?thesis using s that by blast
qed

lemma select_row_passing:
  assumes "where_clause vdist q thr uid m = Inr (Some True)" and "select_row vdist q m = Inr r"
  obtains e qv t d where "m_embedding m = Some e" and "q = Some qv" and "thr = Some t"
    and "vdist e qv = Inr d" and "distance_expr vdist q m = Inr (Some d)"
    and "f8_gt (f8_minus (Fin 1) d) t"
    and "r_similarity r = Some (f8_minus (Fin 1) d)"
    and "r_id r = m_id m" and "r_user_id r = m_user_id m" and "r_created_at r = m_created_at m"
    and "uid = Some (m_user_id m)"
proof -
  from passing_row [OF assms(1)] obtain e qv t d
    where *: "m_embedding m = Some e" "q = Some qv" "thr = Some t"
      "uid = Some (m_user_id m)" "vdist e qv = Inr d"
      "f8_gt (f8_minus (Fin 1) d) t"
      "distance_expr vdist q m = Inr (Some d)"
      "similarity_expr vdist q m = Inr (Some (f8_minus (Fin 1) d))"
    by blast
  from assms(2) *(8) have "r_similarity r = Some (f8_minus (Fin 1) d)"
    "r_id r = m_id m" "r_user_id r = m_user_id m" "r_created_at r = m_created_at m"
    by (auto simp: select_row_def)
  with * show ?thesis using that by blast
qed

text \<open>Evaluating the operator and the query on the example table.\<close>

lemma dot_Cons [simp]: "dot (x # xs) (y # ys) = x * y + dot xs ys"
  by (simp add: dot_def)

lemma dot_Nil [simp]: "dot [] [] = 0"
  by (simp add: dot_def)

lemma dot_replicate_zero [simp]: "dot (replicate n 0) (replicate n 0) = 0"
  by (induction n) simp_all

lemma dot_vec2 [simp]: "dot (vec2 a b) (vec2 c d) = a * c + b * d"
  by (simp add: vec2_def)

lemma dot_zero_vector [simp]: "dot zero_vector zero_vector = 0"
  by (simp add: zero_vector_def)

lemma length_example_vectors [simp]:
  "length (vec2 a b) = 1536" "length zero_vector = 1536"
  by (simp_all add: vec2_def zero_vector_def)

lemma sqrt_625: "sqrt 625 = 25"
  by (rule real_sqrt_unique) simp_all

lemma example_distances:
  "cosine_distance (vec2 3 4) (vec2 3 4) = Inr (Fin 0)"
  "cosine_distance (vec2 4 3) (vec2 3 4) = Inr (Fin (1/25))"
  "cosine_distance (vec2 (-4) 3) (vec2 3 4) = Inr (Fin 1)"
  "cosine_distance zero_vector (vec2 3 4) = Inr NaN"
  "cosine_distance (vec2 3 4) [3, 4] = Inl (DifferentDimensions 1536 2)"
  by (simp_all add: cosine_distance_def sqrt_625)

lemmas query_defs =
  match_memories_def select_rows_def matching_rows_def scan_memories_def
  user_isolation_policy_def where_clause_def similarity_expr_def distance_expr_def
  cosine_op_def sql_minus_def sql_gt_def sql_eq_def sql_and_def order_key_def f8_rank_def
  select_row_def row_of_def example_table_def alice_session_def mem_def alice_def bob_def
  example_distances

lemma example_query_limit_2:
  "match_memories cosine_distance alice_session example_table
     (Some (vec2 3 4)) (Some (Fin (1/2))) (Some 2) (Some alice) =
   Inr [row_of (mem 5 alice (Some (vec2 3 4)) 500) (Fin 1),
        row_of (mem 1 alice (Some (vec2 4 3)) 100) (Fin (24/25))]"
  by (simp add: query_defs)

lemma example_query_limit_5:
  "match_memories cosine_distance alice_session example_table
     (Some (vec2 3 4)) (Some (Fin (1/2))) (Some 5) (Some alice) =
   Inr [row_of (mem 5 alice (Some (vec2 3 4)) 500) (Fin 1),
        row_of (mem 1 alice (Some (vec2 4 3)) 100) (Fin (24/25)),
        row_of (mem 6 alice (Some (vec2 4 3)) 600) (Fin (24/25)),
        row_of (mem 7 alice (Some zero_vector) 700) NaN]"
  by (simp add: query_defs)

lemma example_query_threshold_5:
  "match_memories cosine_distance alice_session example_table
     (Some (vec2 3 4)) (Some (Fin 5)) (Some 5) (Some alice) =
   Inr [row_of (mem 7 alice (Some zero_vector) 700) NaN]"
  by (simp add: query_defs)

lemma example_query_all:
  "match_memories cosine_distance alice_session example_table
     (Some (vec2 3 4)) (Some (Fin (-2))) None (Some alice) =
   Inr [row_of (mem 5 alice (Some (vec2 3 4)) 500) (Fin 1),
        row_of (mem 1 alice (Some (vec2 4 3)) 100) (Fin (24/25)),
        row_of (mem 6 alice (Some (vec2 4 3)) 600) (Fin (24/25)),
        row_of (mem 4 alice (Some (vec2 (-4) 3)) 400) (Fin 0),
        row_of (mem 7 alice (Some zero_vector) 700) NaN]"
  by (simp add: query_defs)

lemma example_query_bypass:
  "match_memories cosine_distance \<lparr> auth_uid = None, bypass_rls = True \<rparr> example_table
     (Some (vec2 3 4)) (Some (Fin (1/2))) (Some 2) (Some alice) =
   Inr [row_of (mem 5 alice (Some (vec2 3 4)) 500) (Fin 1),
        row_of (mem 1 alice (Some (vec2 4 3)) 100) (Fin (24/25))]"
  by (simp add: query_defs)

lemma example_query_dimension:
  "match_memories cosine_distance alice_session example_table
     (Some [3, 4]) (Some (Fin (1/2))) (Some 2) (Some alice) = Inl (DifferentDimensions 1536 2)"
  by (simp add: query_defs cosine_distance_def vec2_def)

lemma example_table_dimensions: "\<forall>m \<in> set example_table. embedding_ok m"
  by (simp add: example_table_def embedding_ok_def mem_def embedding_dim_def)

subsection \<open>Threshold and limit\<close>

text \<open>
  C1, as amended. Whatever the owner, the query vector, the threshold and the count,
  every row that \<open>match_memories\<close> returns comes from a row of the table whose
  similarity to the query vector, \<open>1 - distance\<close>, exceeds the threshold in the order
  of \<open>float8\<close>, where NaN ranks above every number: when the similarity and the
  threshold are numbers the similarity is strictly greater, and otherwise the
  similarity may be NaN (the distance of a zero vector). The value in the
  \<open>similarity\<close> column is that similarity, and it is this value, not the distance,
  that is compared with the threshold. The number of rows returned is at most
  \<open>match_count\<close>.
\<close>

theorem match_memories_threshold_limit:
  assumes "match_memories vdist sess tbl query_embedding match_threshold match_count p_user_id = Inr rows"
  shows "(\<forall>r \<in> set rows. \<exists>m \<in> set tbl. \<exists>e q t d.
            select_row vdist query_embedding m = Inr r \<and>
            m_embedding m = Some e \<and> query_embedding = Some q \<and> match_threshold = Some t \<and>
            vdist e q = Inr d \<and> r_similarity r = Some (f8_minus (Fin 1) d) \<and>
            f8_gt (f8_minus (Fin 1) d) t)
       \<and> (\<forall>r \<in> set rows. \<forall>x y. r_similarity r = Some (Fin x) \<longrightarrow>
            match_threshold = Some (Fin y) \<longrightarrow> y < x)
       \<and> (\<forall>k. match_count = Some k \<longrightarrow> int (length rows) \<le> k)"
proof (intro conjI ballI allI impI)
  fix r assume "r \<in> set rows"
  from match_memories_row [OF assms this] obtain m
    where tbl: "m \<in> set tbl"
      and w: "where_clause vdist query_embedding match_threshold p_user_id m = Inr (Some True)"
      and r: "select_row vdist query_embedding m = Inr r"
    by blast
  from select_row_passing [OF w r] obtain e q t d
    where "m_embedding m = Some e" "query_embedding = Some q" "match_threshold = Some t"
      "vdist e q = Inr d" "f8_gt (f8_minus (Fin 1) d) t"
      "r_similarity r = Some (f8_minus (Fin 1) d)"
    by metis
  with r have "select_row vdist query_embedding m = Inr r \<and>
            m_embedding m = Some e \<and> query_embedding = Some q \<and> match_threshold = Some t \<and>
            vdist e q = Inr d \<and> r_similarity r = Some (f8_minus (Fin 1) d) \<and>
            f8_gt (f8_minus (Fin 1) d) t"
    by simp
  then have "\<exists>e q t d. select_row vdist query_embedding m = Inr r \<and>
            m_embedding m = Some e \<and> query_embedding = Some q \<and> match_threshold = Some t \<and>
            vdist e q = Inr d \<and> r_similarity r = Some (f8_minus (Fin 1) d) \<and>
            f8_gt (f8_minus (Fin 1) d) t"
    by (intro exI)
  with tbl show "\<exists>m \<in> set tbl. \<exists>e q t d.
            select_row vdist query_embedding m = Inr r \<and>
            m_embedding m = Some e \<and> query_embedding = Some q \<and> match_threshold = Some t \<and>
            vdist e q = Inr d \<and> r_similarity r = Some (f8_minus (Fin 1) d) \<and>
            f8_gt (f8_minus (Fin 1) d) t"
    by (rule rev_bexI)
next
  fix r x y
  assume "r \<in> set rows" and s: "r_similarity r = Some (Fin x)" and t: "match_threshold = Some (Fin y)"
  from match_memories_row [OF assms this(1)] obtain m
    where w: "where_clause vdist query_embedding match_threshold p_user_id m = Inr (Some True)"
      and r: "select_row vdist query_embedding m = Inr r"
    by blast
  from select_row_passing [OF w r] obtain t' d
    where "match_threshold = Some t'" "f8_gt (f8_minus (Fin 1) d) t'"
      "r_similarity r = Some (f8_minus (Fin 1) d)"
    by metis
  with s t show "y < x" by simp
next
  fix k assume k: "match_count = Some k"
  show "int (length rows) \<le> k"
  proof (cases "k \<le> 0")
    case True
    with assms k show ?thesis by (simp add: match_memories_def split: if_splits)
  next
    case False
    with assms k obtain all where "rows = take (nat k) all"
      by (auto simp: match_memories_def err_bind_Inr)
    with False show ?thesis by simp
  qed
qed

text \<open>
  On the example table, with threshold \<open>1/2\<close> and count 2: four of alice's rows pass
  (similarities 1, \<open>24/25\<close>, \<open>24/25\<close> and NaN) and two are returned. The row of
  distance 1 (similarity 0) is left out although its distance exceeds \<open>1/2\<close>; the rows
  of distance 0 and \<open>1/25\<close> are returned although their distances do not.
\<close>

theorem match_memories_threshold_limit_witness:
  "match_memories cosine_distance alice_session example_table
     (Some (vec2 3 4)) (Some (Fin (1/2))) (Some 2) (Some alice) =
   Inr [row_of (mem 5 alice (Some (vec2 3 4)) 500) (Fin 1),
        row_of (mem 1 alice (Some (vec2 4 3)) 100) (Fin (24/25))]
   \<and> r_similarity (row_of (mem 5 alice (Some (vec2 3 4)) 500) (Fin 1)) = Some (Fin 1)
   \<and> r_similarity (row_of (mem 1 alice (Some (vec2 4 3)) 100) (Fin (24/25))) = Some (Fin (24/25))
   \<and> f8_gt (Fin 1) (Fin (1/2)) \<and> f8_gt (Fin (24/25)) (Fin (1/2))
   \<and> int (length [row_of (mem 5 alice (Some (vec2 3 4)) 500) (Fin 1),
        row_of (mem 1 alice (Some (vec2 4 3)) 100) (Fin (24/25))]) \<le> 2"
proof -
  from match_memories_threshold_limit [OF example_query_limit_2]
  have "int (length [row_of (mem 5 alice (Some (vec2 3 4)) 500) (Fin 1),
        row_of (mem 1 alice (Some (vec2 4 3)) 100) (Fin (24/25))]) \<le> 2"
    by blast
  with example_query_limit_2 show ?thesis by (simp add: row_of_def)
qed

text \<open>
  The claim as stated has every returned Memory at a similarity strictly greater than
  the threshold. Row 7 of the example table holds the zero vector, a value the column
  admits: its cosine distance to any vector is NaN, so is its similarity, and the
  comparison \<open>NaN > match_threshold\<close> is true. At the threshold 5, which no cosine
  similarity exceeds, the call returns row 7.
\<close>

theorem match_memories_nan_counterexample:
  "match_memories cosine_distance alice_session example_table
     (Some (vec2 3 4)) (Some (Fin 5)) (Some 5) (Some alice) =
   Inr [row_of (mem 7 alice (Some zero_vector) 700) NaN]
   \<and> cosine_distance zero_vector (vec2 3 4) = Inr NaN
   \<and> r_similarity (row_of (mem 7 alice (Some zero_vector) 700) NaN) = Some NaN
   \<and> embedding_ok (mem 7 alice (Some zero_vector) 700)"
  using example_query_threshold_5
  by (simp add: example_distances row_of_def embedding_ok_def mem_def embedding_dim_def)

subsection \<open>Owner isolation\<close>

text \<open>
  C2. A call of \<open>match_memories\<close> for an owner returns no row of another owner and
  changes no row at all: the table after the call is the table before it, and every
  row of the result has \<open>user_id\<close> equal to the requested \<open>p_user_id\<close>. Under the
  policy \<open>user_isolation_policy\<close>, unless the session bypasses row-level security,
  every row of the result also has \<open>user_id\<close> equal to \<open>auth.uid()\<close>.
\<close>

theorem match_memories_owner_isolation:
  assumes "call_match_memories vdist sess query_embedding match_threshold match_count p_user_id tbl
             = (tbl', Inr rows)"
  shows "tbl' = tbl \<and> (\<forall>r \<in> set rows. p_user_id = Some (r_user_id r))
       \<and> (\<forall>r \<in> set rows. \<not> bypass_rls sess \<longrightarrow> auth_uid sess = Some (r_user_id r))"
proof -
  from assms have t: "tbl' = tbl"
    by (simp add: call_match_memories_def)
  from assms have res: "match_memories vdist sess tbl query_embedding match_threshold match_count p_user_id = Inr rows"
    by (auto simp: call_match_memories_def)
  have "p_user_id = Some (r_user_id r) \<and> (\<not> bypass_rls sess \<longrightarrow> auth_uid sess = Some (r_user_id r))"
    if "r \<in> set rows" for r
  proof -
    from match_memories_row [OF res that] obtain m
      where m: "m \<in> set (scan_memories sess tbl)"
        and w: "where_clause vdist query_embedding match_threshold p_user_id m = Inr (Some True)"
        and r: "select_row vdist query_embedding m = Inr r"
      by blast
    from select_row_passing [OF w r]
    have u: "r_user_id r = m_user_id m" and p: "p_user_id = Some (m_user_id m)" by blast+
    from m have "\<not> bypass_rls sess \<longrightarrow> auth_uid sess = Some (m_user_id m)"
      by (auto simp: scan_memories_def user_isolation_policy_def sql_eq_def split: option.splits)
    with u p show ?thesis by simp
  qed
  with t show ?thesis by blast
qed

text \<open>
  On the example table bob's row is among the nearest to the query vector (distance
  0); a call for alice returns alice's rows only, here through a session that
  bypasses row-level security.
\<close>

theorem match_memories_owner_isolation_witness:
  "call_match_memories cosine_distance \<lparr> auth_uid = None, bypass_rls = True \<rparr>
     (Some (vec2 3 4)) (Some (Fin (1/2))) (Some 2) (Some alice) example_table =
   (example_table,
    Inr [row_of (mem 5 alice (Some (vec2 3 4)) 500) (Fin 1),
         row_of (mem 1 alice (Some (vec2 4 3)) 100) (Fin (24/25))])
   \<and> r_user_id (row_of (mem 5 alice (Some (vec2 3 4)) 500) (Fin 1)) = alice
   \<and> r_user_id (row_of (mem 1 alice (Some (vec2 4 3)) 100) (Fin (24/25))) = alice
   \<and> alice \<noteq> bob"
proof -
  have c: "call_match_memories cosine_distance \<lparr> auth_uid = None, bypass_rls = True \<rparr>
     (Some (vec2 3 4)) (Some (Fin (1/2))) (Some 2) (Some alice) example_table =
   (example_table,
    Inr [row_of (mem 5 alice (Some (vec2 3 4)) 500) (Fin 1),
         row_of (mem 1 alice (Some (vec2 4 3)) 100) (Fin (24/25))])"
    by (simp add: call_match_memories_def example_query_bypass)
  from match_memories_owner_isolation [OF c] c show ?thesis
    by (simp add: alice_def bob_def)
qed

subsection \<open>Order of the result\<close>

lemma f8_minus_one_order:
  assumes "f8_rank d1 \<le> f8_rank d2"
  shows "f8_minus (Fin 1) d2 = NaN \<or>
     (f8_minus (Fin 1) d1 \<noteq> NaN \<and> \<not> f8_gt (f8_minus (Fin 1) d2) (f8_minus (Fin 1) d1))"
  using assms by (cases d1; cases d2) (simp_all add: f8_rank_def f8_gt_def)

lemma list_all2_map_eq:
  "list_all2 (\<lambda>x y. f y = g x) xs ys \<Longrightarrow> map f ys = map g xs"
  by (induction rule: list_all2_induct) simp_all

text \<open>
  C3, as amended. The result of \<open>match_memories\<close> is ordered by the distance
  ascending in the order of \<open>float8\<close>. Every returned row has a similarity, one minus
  its distance: the similarities that are not NaN are in descending order, and a
  row whose similarity is NaN comes after every row whose similarity is not. The
  statement orders by the distance alone, so the order of two rows of equal
  similarity is not decided by \<open>created_at\<close>.
\<close>

theorem match_memories_similarity_descending:
  assumes "match_memories vdist sess tbl query_embedding match_threshold match_count p_user_id = Inr rows"
  shows "\<exists>ds. map r_similarity rows = map (\<lambda>d. Some (f8_minus (Fin 1) d)) ds
           \<and> sorted (map f8_rank ds)
           \<and> sorted_wrt (\<lambda>a b. b = NaN \<or> (a \<noteq> NaN \<and> \<not> f8_gt b a))
               (map (f8_minus (Fin 1)) ds)"
proof -
  from match_memories_Inr [OF assms] obtain keyed n
    where srt: "sorted (map (\<lambda>km. order_key (fst km)) keyed)"
      and k: "\<forall>km \<in> set keyed. snd km \<in> set (scan_memories sess tbl) \<and>
           where_clause vdist query_embedding match_threshold p_user_id (snd km) = Inr (Some True) \<and>
           distance_expr vdist query_embedding (snd km) = Inr (fst km)"
      and l: "list_all2 (\<lambda>km r. select_row vdist query_embedding (snd km) = Inr r) (take n keyed) rows"
    by blast
  define dof :: "float8 option \<times> memories \<Rightarrow> float8"
    where "dof km = (case fst km of None \<Rightarrow> NaN | Some d \<Rightarrow> d)" for km
  have key: "fst km = Some (dof km)" if "km \<in> set keyed" for km
  proof -
    from k that have w: "where_clause vdist query_embedding match_threshold p_user_id (snd km) = Inr (Some True)"
      and d: "distance_expr vdist query_embedding (snd km) = Inr (fst km)" by blast+
    from passing_row [OF w] d obtain d' where "fst km = Some d'" by force
    then show ?thesis by (simp add: dof_def)
  qed
  have sim: "r_similarity r = Some (f8_minus (Fin 1) (dof km))"
    if "km \<in> set keyed" and "select_row vdist query_embedding (snd km) = Inr r" for km r
  proof -
    from k that(1) have w: "where_clause vdist query_embedding match_threshold p_user_id (snd km) = Inr (Some True)"
      and d: "distance_expr vdist query_embedding (snd km) = Inr (fst km)" by blast+
    from select_row_passing [OF w that(2)] obtain d'
      where "distance_expr vdist query_embedding (snd km) = Inr (Some d')"
        "r_similarity r = Some (f8_minus (Fin 1) d')" by metis
    with d key [OF that(1)] show ?thesis by simp
  qed
  have "list_all2 (\<lambda>km r. r_similarity r = Some (f8_minus (Fin 1) (dof km))) (take n keyed) rows"
    using l by (rule list.rel_mono_strong) (auto dest: in_set_takeD intro: sim)
  then have 1: "map r_similarity rows
      = map (\<lambda>d. Some (f8_minus (Fin 1) d)) (map dof (take n keyed))"
    by (simp add: list_all2_map_eq comp_def)
  from srt have "sorted (map (\<lambda>km. order_key (fst km)) (take n keyed))"
    by (simp add: sorted_wrt_take flip: take_map)
  moreover have "order_key (fst km) = f8_rank (dof km)" if "km \<in> set (take n keyed)" for km
  proof -
    from that have "km \<in> set keyed" by (rule in_set_takeD)
    from key [OF this] have "order_key (fst km) = order_key (Some (dof km))" by simp
    then show ?thesis by (simp add: order_key_def)
  qed
  then have "map (\<lambda>km. order_key (fst km)) (take n keyed) = map (\<lambda>km. f8_rank (dof km)) (take n keyed)"
    by simp
  ultimately have 2: "sorted (map f8_rank (map dof (take n keyed)))"
    by (simp add: comp_def)
  then have "sorted_wrt (\<lambda>a b. f8_rank a \<le> f8_rank b) (map dof (take n keyed))"
    by (simp add: sorted_map sorted_wrt_map)
  then have "sorted_wrt (\<lambda>a b. f8_minus (Fin 1) b = NaN \<or>
      (f8_minus (Fin 1) a \<noteq> NaN \<and> \<not> f8_gt (f8_minus (Fin 1) b) (f8_minus (Fin 1) a)))
      (map dof (take n keyed))"
    by (rule sorted_wrt_mono_rel [rotated]) (rule f8_minus_one_order)
  then have 3: "sorted_wrt (\<lambda>a b. b = NaN \<or> (a \<noteq> NaN \<and> \<not> f8_gt b a))
      (map (f8_minus (Fin 1)) (map dof (take n keyed)))"
    by (simp add: sorted_wrt_map)
  from 1 2 3 show ?thesis by blast
qed

text \<open>
  On the example table with threshold \<open>1/2\<close> and count 5 the distances of the result
  are 0, \<open>1/25\<close>, \<open>1/25\<close> and NaN, and its similarities 1, \<open>24/25\<close>, \<open>24/25\<close> and NaN.
\<close>

theorem match_memories_similarity_descending_witness:
  "match_memories cosine_distance alice_session example_table
     (Some (vec2 3 4)) (Some (Fin (1/2))) (Some 5) (Some alice) =
   Inr [row_of (mem 5 alice (Some (vec2 3 4)) 500) (Fin 1),
        row_of (mem 1 alice (Some (vec2 4 3)) 100) (Fin (24/25)),
        row_of (mem 6 alice (Some (vec2 4 3)) 600) (Fin (24/25)),
        row_of (mem 7 alice (Some zero_vector) 700) NaN]
   \<and> (\<exists>ds. map r_similarity
        [row_of (mem 5 alice (Some (vec2 3 4)) 500) (Fin 1),
         row_of (mem 1 alice (Some (vec2 4 3)) 100) (Fin (24/25)),
         row_of (mem 6 alice (Some (vec2 4 3)) 600) (Fin (24/25)),
         row_of (mem 7 alice (Some zero_vector) 700) NaN]
          = map (\<lambda>d. Some (f8_minus (Fin 1) d)) ds
        \<and> sorted (map f8_rank ds)
        \<and> sorted_wrt (\<lambda>a b. b = NaN \<or> (a \<noteq> NaN \<and> \<not> f8_gt b a)) (map (f8_minus (Fin 1)) ds))
   \<and> map r_similarity
        [row_of (mem 5 alice (Some (vec2 3 4)) 500) (Fin 1),
         row_of (mem 1 alice (Some (vec2 4 3)) 100) (Fin (24/25)),
         row_of (mem 6 alice (Some (vec2 4 3)) 600) (Fin (24/25)),
         row_of (mem 7 alice (Some zero_vector) 700) NaN]
       = map (\<lambda>d. Some (f8_minus (Fin 1) d)) [Fin 0, Fin (1/25), Fin (1/25), NaN]"
proof -
  note q = example_query_limit_5
  from match_memories_similarity_descending [OF q]
  have "\<exists>ds. map r_similarity
        [row_of (mem 5 alice (Some (vec2 3 4)) 500) (Fin 1),
         row_of (mem 1 alice (Some (vec2 4 3)) 100) (Fin (24/25)),
         row_of (mem 6 alice (Some (vec2 4 3)) 600) (Fin (24/25)),
         row_of (mem 7 alice (Some zero_vector) 700) NaN]
          = map (\<lambda>d. Some (f8_minus (Fin 1) d)) ds
        \<and> sorted (map f8_rank ds)
        \<and> sorted_wrt (\<lambda>a b. b = NaN \<or> (a \<noteq> NaN \<and> \<not> f8_gt b a)) (map (f8_minus (Fin 1)) ds)" .
  moreover have "map r_similarity
        [row_of (mem 5 alice (Some (vec2 3 4)) 500) (Fin 1),
         row_of (mem 1 alice (Some (vec2 4 3)) 100) (Fin (24/25)),
         row_of (mem 6 alice (Some (vec2 4 3)) 600) (Fin (24/25)),
         row_of (mem 7 alice (Some zero_vector) 700) NaN]
       = map (\<lambda>d. Some (f8_minus (Fin 1) d)) [Fin 0, Fin (1/25), Fin (1/25), NaN]"
    by (simp add: row_of_def)
  ultimately show ?thesis using q by blast
qed

text \<open>
  The claim as stated asks that rows of equal similarity come most recent first. On
  the example table the rows 1 and 6 of alice have the same similarity \<open>24/25\<close>; row 1
  was created at 100 and row 6 at 600, and row 1 comes first. With count 2 it is the
  older row 1 that is returned and the more recent row 6 that is cut off. All the
  embeddings of the table have the dimension of the column.
\<close>

theorem match_memories_tie_order_counterexample:
  "match_memories cosine_distance alice_session example_table
     (Some (vec2 3 4)) (Some (Fin (1/2))) (Some 5) (Some alice) =
   Inr [row_of (mem 5 alice (Some (vec2 3 4)) 500) (Fin 1),
        row_of (mem 1 alice (Some (vec2 4 3)) 100) (Fin (24/25)),
        row_of (mem 6 alice (Some (vec2 4 3)) 600) (Fin (24/25)),
        row_of (mem 7 alice (Some zero_vector) 700) NaN]
   \<and> r_similarity (row_of (mem 1 alice (Some (vec2 4 3)) 100) (Fin (24/25)))
     = r_similarity (row_of (mem 6 alice (Some (vec2 4 3)) 600) (Fin (24/25)))
   \<and> r_created_at (row_of (mem 1 alice (Some (vec2 4 3)) 100) (Fin (24/25)))
     < r_created_at (row_of (mem 6 alice (Some (vec2 4 3)) 600) (Fin (24/25)))
   \<and> match_memories cosine_distance alice_session example_table
     (Some (vec2 3 4)) (Some (Fin (1/2))) (Some 2) (Some alice) =
   Inr [row_of (mem 5 alice (Some (vec2 3 4)) 500) (Fin 1),
        row_of (mem 1 alice (Some (vec2 4 3)) 100) (Fin (24/25))]
   \<and> length (vec2 4 3) = embedding_dim \<and> length (vec2 3 4) = embedding_dim
   \<and> length zero_vector = embedding_dim"
  using example_query_limit_5 example_query_limit_2
  by (simp add: row_of_def mem_def embedding_dim_def)

subsection \<open>Rows without an embedding\<close>

lemma where_clause_null_embedding:
  assumes "m_embedding m = None"
  shows "\<exists>b. where_clause vdist q thr uid m = Inr b \<and> b \<noteq> Some True"
  using assms
  by (simp add: where_clause_def Let_def similarity_expr_def distance_expr_def cosine_op_def
      sql_minus_def sql_gt_def sql_and_def)

lemma filter_rows_skip:
  assumes "\<forall>m \<in> set ms. \<not> P m \<longrightarrow> (\<exists>b. cond m = Inr b \<and> b \<noteq> Some True)"
  shows "filter_rows cond (filter P ms) = filter_rows cond ms"
  using assms
proof (induction ms)
  case Nil
  then show ?case by simp
next
  case (Cons m ms)
  then have ih: "filter_rows cond (filter P ms) = filter_rows cond ms" by simp
  show ?case
  proof (cases "P m")
    case True
    with ih show ?thesis by simp
  next
    case False
    with Cons.prems obtain b where "cond m = Inr b" "b \<noteq> Some True" by auto
    with False ih show ?thesis by (cases "filter_rows cond ms") simp_all
  qed
qed

lemma scan_memories_filter:
  "scan_memories sess (filter P tbl) = filter P (scan_memories sess tbl)"
  by (auto simp: scan_memories_def intro: filter_cong)

text \<open>
  C10. The column \<open>embedding\<close> may be NULL, and a row whose embedding is NULL is
  never in the result of \<open>match_memories\<close>: its similarity is NULL, the condition
  \<open>1 - (embedding <=> query_embedding) > match_threshold\<close> is not true of it, the
  result is the same as on the table without such rows, and, \<open>id\<close> being the primary
  key, its \<open>id\<close> is the \<open>id\<close> of no returned row.
\<close>

theorem match_memories_skips_null_embedding:
  "(\<forall>m. m_embedding m = None \<longrightarrow>
        similarity_expr vdist query_embedding m = Inr None \<and>
        where_clause vdist query_embedding match_threshold p_user_id m \<noteq> Inr (Some True))
   \<and> match_memories vdist sess tbl query_embedding match_threshold match_count p_user_id =
       match_memories vdist sess (filter (\<lambda>m. m_embedding m \<noteq> None) tbl)
         query_embedding match_threshold match_count p_user_id
   \<and> (\<forall>rows m. match_memories vdist sess tbl query_embedding match_threshold match_count p_user_id = Inr rows
         \<longrightarrow> distinct (map m_id tbl) \<longrightarrow> m \<in> set tbl \<longrightarrow> m_embedding m = None
         \<longrightarrow> m_id m \<notin> r_id ` set rows)"
proof (intro conjI allI impI)
  fix m :: memories assume "m_embedding m = None"
  then show "similarity_expr vdist query_embedding m = Inr None"
    by (simp add: similarity_expr_def distance_expr_def cosine_op_def sql_minus_def)
next
  fix m :: memories assume "m_embedding m = None"
  then show "where_clause vdist query_embedding match_threshold p_user_id m \<noteq> Inr (Some True)"
    by (simp add: where_clause_true)
next
  have "filter_rows (where_clause vdist query_embedding match_threshold p_user_id)
          (scan_memories sess (filter (\<lambda>m. m_embedding m \<noteq> None) tbl))
      = filter_rows (where_clause vdist query_embedding match_threshold p_user_id)
          (scan_memories sess tbl)"
    unfolding scan_memories_filter
    by (rule filter_rows_skip) (simp add: where_clause_null_embedding)
  then have "matching_rows vdist sess (filter (\<lambda>m. m_embedding m \<noteq> None) tbl)
        query_embedding match_threshold p_user_id
      = matching_rows vdist sess tbl query_embedding match_threshold p_user_id"
    by (simp add: matching_rows_def)
  then show "match_memories vdist sess tbl query_embedding match_threshold match_count p_user_id =
       match_memories vdist sess (filter (\<lambda>m. m_embedding m \<noteq> None) tbl)
         query_embedding match_threshold match_count p_user_id"
    by (simp only: match_memories_def select_rows_def)
next
  fix rows and m :: memories
  assume res: "match_memories vdist sess tbl query_embedding match_threshold match_count p_user_id = Inr rows"
    and d: "distinct (map m_id tbl)" and m: "m \<in> set tbl" and e: "m_embedding m = None"
  show "m_id m \<notin> r_id ` set rows"
  proof
    assume "m_id m \<in> r_id ` set rows"
    then obtain r where r: "r \<in> set rows" "r_id r = m_id m" by auto
    from match_memories_row [OF res r(1)] obtain m'
      where m': "m' \<in> set tbl" "where_clause vdist query_embedding match_threshold p_user_id m' = Inr (Some True)"
        "select_row vdist query_embedding m' = Inr r"
      by blast
    from select_row_passing [OF m'(2,3)] have "r_id r = m_id m'" by metis
    with r have "m_id m' = m_id m" by simp
    with d m m'(1) have "m' = m" by (auto simp: distinct_map dest: inj_onD)
    with m'(2) e show False by (simp add: where_clause_true)
  qed
qed

text \<open>
  Row 3 of the example table belongs to alice and has no embedding. With a threshold
  of \<open>-2\<close>, below every cosine similarity, and no limit, the call returns alice's
  five other rows and not row 3.
\<close>

theorem match_memories_skips_null_embedding_witness:
  "m_embedding (mem 3 alice None 300) = None
   \<and> mem 3 alice None 300 \<in> set example_table
   \<and> distinct (map m_id example_table)
   \<and> similarity_expr cosine_distance (Some (vec2 3 4)) (mem 3 alice None 300) = Inr None
   \<and> match_memories cosine_distance alice_session example_table
       (Some (vec2 3 4)) (Some (Fin (-2))) None (Some alice)
     = Inr [row_of (mem 5 alice (Some (vec2 3 4)) 500) (Fin 1),
            row_of (mem 1 alice (Some (vec2 4 3)) 100) (Fin (24/25)),
            row_of (mem 6 alice (Some (vec2 4 3)) 600) (Fin (24/25)),
            row_of (mem 4 alice (Some (vec2 (-4) 3)) 400) (Fin 0),
            row_of (mem 7 alice (Some zero_vector) 700) NaN]
   \<and> m_id (mem 3 alice None 300) \<notin> r_id ` set
           [row_of (mem 5 alice (Some (vec2 3 4)) 500) (Fin 1),
            row_of (mem 1 alice (Some (vec2 4 3)) 100) (Fin (24/25)),
            row_of (mem 6 alice (Some (vec2 4 3)) 600) (Fin (24/25)),
            row_of (mem 4 alice (Some (vec2 (-4) 3)) 400) (Fin 0),
            row_of (mem 7 alice (Some zero_vector) 700) NaN]"
proof -
  note q = example_query_all
  have e: "m_embedding (mem 3 alice None 300) = None" by (simp add: mem_def)
  have i: "mem 3 alice None 300 \<in> set example_table" by (simp add: example_table_def)
  have d: "distinct (map m_id example_table)" by (simp add: example_table_def mem_def)
  note t = match_memories_skips_null_embedding
    [of cosine_distance "Some (vec2 3 4)" "Some (Fin (-2))" "Some alice" alice_session
      example_table None]
  from t e have "similarity_expr cosine_distance (Some (vec2 3 4)) (mem 3 alice None 300) = Inr None"
    by blast
  moreover from t q e i d have "m_id (mem 3 alice None 300) \<notin> r_id ` set
           [row_of (mem 5 alice (Some (vec2 3 4)) 500) (Fin 1),
            row_of (mem 1 alice (Some (vec2 4 3)) 100) (Fin (24/25)),
            row_of (mem 6 alice (Some (vec2 4 3)) 600) (Fin (24/25)),
            row_of (mem 4 alice (Some (vec2 (-4) 3)) 400) (Fin 0),
            row_of (mem 7 alice (Some zero_vector) 700) NaN]"
    by blast
  ultimately show ?thesis using q e i d by blast
qed

section \<open>Properties of the table\<close>

lemma not_null_Inr: "not_null c v = Inr x \<longleftrightarrow> v = Some x"
  by (cases v) (simp_all add: not_null_def)

lemma vector_typmod_Inr:
  "vector_typmod v = Inr w \<longleftrightarrow> w = v \<and> (\<forall>x. v = Some x \<longrightarrow> length x = embedding_dim)"
  by (cases v) (auto simp: vector_typmod_def)

lemma insert_memories_Inr:
  assumes "insert_memories new_id now ins tbl = Inr tbl'"
  shows "\<exists>m. tbl' = tbl @ [m] \<and> m_id m = new_id \<and> new_id \<notin> m_id ` set tbl
    \<and> m_embedding m = col_value None (i_embedding ins)
    \<and> (\<forall>x. m_embedding m = Some x \<longrightarrow> length x = embedding_dim)
    \<and> col_value (Some 1) (i_importance ins) = Some (m_importance m)
    \<and> col_value (Some 0) (i_access_count ins) = Some (m_access_count m)
    \<and> col_value (Some 0) (i_summary_count ins) = Some (m_summary_count m)
    \<and> col_value (Some now) (i_created_at ins) = Some (m_created_at m)
    \<and> col_value (Some now) (i_last_accessed_at ins) = Some (m_last_accessed_at m)"
  using assms unfolding insert_memories_def err_bind_Inr not_null_Inr vector_typmod_Inr
  by (auto split: if_splits)

subsection \<open>Dimension of the stored embeddings\<close>

text \<open>
  C8, as amended. The dimension is the constant 1536. An insert that gives an
  embedding of another dimension is rejected with \<open>DimensionMismatch\<close> and writes
  nothing; every insert keeps the property that each stored embedding is either
  NULL or a vector of exactly 1536 components.
\<close>

theorem insert_memories_embedding_dimension:
  "embedding_dim = 1536
   \<and> (\<forall>v. i_embedding ins = Val (Some v) \<longrightarrow> length v \<noteq> embedding_dim \<longrightarrow>
         insert_memories new_id now ins tbl = Inl (DimensionMismatch (length v)))
   \<and> (\<forall>tbl'. insert_memories new_id now ins tbl = Inr tbl' \<longrightarrow>
         (\<forall>m \<in> set tbl. embedding_ok m) \<longrightarrow> (\<forall>m \<in> set tbl'. embedding_ok m))"
proof (intro conjI allI impI)
  show "embedding_dim = 1536" by (simp add: embedding_dim_def)
next
  fix v assume "i_embedding ins = Val (Some v)" and "length v \<noteq> embedding_dim"
  then show "insert_memories new_id now ins tbl = Inl (DimensionMismatch (length v))"
    by (simp add: insert_memories_def col_value_def vector_typmod_def err_bind_def)
next
  fix tbl'
  assume ins: "insert_memories new_id now ins tbl = Inr tbl'"
    and ok: "\<forall>m \<in> set tbl. embedding_ok m"
  from insert_memories_Inr [OF ins] obtain m
    where "tbl' = tbl @ [m]" and "\<forall>x. m_embedding m = Some x \<longrightarrow> length x = embedding_dim"
    by blast
  with ok show "\<forall>m \<in> set tbl'. embedding_ok m"
    by (auto simp: embedding_ok_def split: option.splits)
qed

text \<open>
  An ingest with a vector of 1536 components into the empty table stores it; one with
  a vector of two components is rejected.
\<close>

theorem insert_memories_embedding_dimension_witness:
  "insert_memories 1 100 (ingest_columns alice ''text'' ''summary'' [3, 4]) []
     = Inl (DimensionMismatch 2)
   \<and> insert_memories 1 100 (ingest_columns alice ''text'' ''summary'' (replicate 1536 0)) []
     = Inr [mem 1 alice (Some (replicate 1536 0)) 100]
   \<and> embedding_ok (mem 1 alice (Some (replicate 1536 0)) 100)"
proof -
  have a: "i_embedding (ingest_columns alice ''text'' ''summary'' [3, 4]) = Val (Some [3, 4])"
    by (simp add: ingest_columns_def)
  have b: "length [3, 4 :: real] \<noteq> embedding_dim" by (simp add: embedding_dim_def)
  have c: "insert_memories 1 100 (ingest_columns alice ''text'' ''summary'' (replicate 1536 0)) []
     = Inr [mem 1 alice (Some (replicate 1536 0)) 100]"
    by (simp add: insert_memories_def ingest_columns_def col_value_def vector_typmod_def
        not_null_def err_bind_def embedding_dim_def mem_def)
  have d: "\<forall>m \<in> set ([] :: memories list). embedding_ok m" by simp
  from insert_memories_embedding_dimension
    [of "ingest_columns alice ''text'' ''summary'' [3, 4]" 1 100 "[]"] a b
  have "insert_memories 1 100 (ingest_columns alice ''text'' ''summary'' [3, 4]) []
     = Inl (DimensionMismatch 2)" by (simp add: embedding_dim_def)
  moreover from insert_memories_embedding_dimension
    [of "ingest_columns alice ''text'' ''summary'' (replicate 1536 0)" 1 100 "[]"] c d
  have "embedding_ok (mem 1 alice (Some (replicate 1536 0)) 100)"
    by (simp add: embedding_dim_def)
  ultimately show ?thesis using c by simp
qed

text \<open>
  The claim as stated also says that no stored Memory lacks an embedding. The column
  \<open>embedding\<close> is the one column of the table without \<open>not null\<close>: an insert that
  gives NULL for it, or leaves it out, succeeds and stores a row with no embedding.
\<close>

theorem insert_memories_null_embedding_counterexample:
  "insert_memories 3 300
     \<lparr> i_user_id = Val (Some alice), i_raw_text = Val (Some ''text''),
       i_summary = Val (Some ''summary''), i_embedding = Val None,
       i_importance = Default, i_access_count = Default, i_summary_count = Default,
       i_created_at = Default, i_last_accessed_at = Default \<rparr> []
     = Inr [mem 3 alice None 300]
   \<and> m_embedding (mem 3 alice None 300) = None"
  by (simp add: insert_memories_def col_value_def vector_typmod_def
      not_null_def err_bind_def mem_def)

subsection \<open>Defaults of a new row\<close>

text \<open>
  C9. An ingest gives \<open>user_id\<close>, \<open>raw_text\<close>, \<open>summary\<close> and \<open>embedding\<close> and leaves
  the other columns to their defaults. The row created by such an insert has
  \<open>importance = 1.0\<close>, \<open>access_count = 0\<close> and \<open>summary_count = 0\<close>, and its
  \<open>created_at\<close> and \<open>last_accessed_at\<close> are both the \<open>now()\<close> of the statement, so
  \<open>last_accessed_at = created_at\<close> and \<open>last_accessed_at \<ge> created_at\<close>.
\<close>

theorem insert_memories_defaults:
  assumes "insert_memories new_id now ins tbl = Inr tbl'"
    and "i_importance ins = Default" and "i_access_count ins = Default"
    and "i_summary_count ins = Default"
    and "i_created_at ins = Default" and "i_last_accessed_at ins = Default"
  shows "\<exists>m. tbl' = tbl @ [m] \<and> m_id m = new_id
           \<and> m_importance m = 1 \<and> m_access_count m = 0 \<and> m_summary_count m = 0
           \<and> m_created_at m = now \<and> m_last_accessed_at m = m_created_at m
           \<and> m_created_at m \<le> m_last_accessed_at m"
proof -
  from insert_memories_Inr [OF assms(1)] obtain m
    where m: "tbl' = tbl @ [m]" "m_id m = new_id"
      "col_value (Some 1) (i_importance ins) = Some (m_importance m)"
      "col_value (Some 0) (i_access_count ins) = Some (m_access_count m)"
      "col_value (Some 0) (i_summary_count ins) = Some (m_summary_count m)"
      "col_value (Some now) (i_created_at ins) = Some (m_created_at m)"
      "col_value (Some now) (i_last_accessed_at ins) = Some (m_last_accessed_at m)"
    by blast
  with assms(2-) have "m_importance m = 1" "m_access_count m = 0" "m_summary_count m = 0"
    "m_created_at m = now" "m_last_accessed_at m = now"
    by (simp_all add: col_value_def)
  with m(1,2) show ?thesis by simp
qed

theorem insert_memories_defaults_witness:
  "insert_memories 1 100 (ingest_columns alice ''text'' ''summary'' (replicate 1536 0)) []
     = Inr ([] @ [mem 1 alice (Some (replicate 1536 0)) 100])
   \<and> m_importance (mem 1 alice (Some (replicate 1536 0)) 100) = 1
   \<and> m_access_count (mem 1 alice (Some (replicate 1536 0)) 100) = 0
   \<and> m_summary_count (mem 1 alice (Some (replicate 1536 0)) 100) = 0
   \<and> m_created_at (mem 1 alice (Some (replicate 1536 0)) 100) = 100
   \<and> m_last_accessed_at (mem 1 alice (Some (replicate 1536 0)) 100) = 100"
proof -
  have c: "insert_memories 1 100 (ingest_columns alice ''text'' ''summary'' (replicate 1536 0)) []
     = Inr [mem 1 alice (Some (replicate 1536 0)) 100]"
    by (simp add: insert_memories_def ingest_columns_def col_value_def vector_typmod_def
        not_null_def err_bind_def embedding_dim_def mem_def)
  from insert_memories_defaults [OF c] c show ?thesis
    by (simp add: ingest_columns_def)
qed

section \<open>Properties of the Retention Scorer\<close>

lemma elapsed_days_nonneg: "0 \<le> elapsed_days last_accessed_at now"
  by (simp add: elapsed_days_def)

lemma elapsed_days_zero: "now \<le> last_accessed_at \<Longrightarrow> elapsed_days last_accessed_at now = 0"
  by (simp add: elapsed_days_def usec_per_day_def divide_nonpos_pos)

lemma elapsed_days_strict_mono:
  assumes "last_accessed_at \<le> now" and "now < now'"
  shows "elapsed_days last_accessed_at now < elapsed_days last_accessed_at now'"
proof -
  have "real_of_int (now - last_accessed_at) / real_of_int usec_per_day
      < real_of_int (now' - last_accessed_at) / real_of_int usec_per_day"
    using assms by (simp add: usec_per_day_def divide_strict_right_mono)
  moreover have "0 \<le> real_of_int (now - last_accessed_at) / real_of_int usec_per_day"
    using assms by (simp add: usec_per_day_def)
  ultimately show ?thesis by (simp add: elapsed_days_def)
qed

lemma elapsed_days_pos: "last_accessed_at < now \<Longrightarrow> 0 < elapsed_days last_accessed_at now"
  by (simp add: elapsed_days_def usec_per_day_def)

lemma stability_pos:
  "0 < base_stability cfg \<Longrightarrow> 0 \<le> access_count \<Longrightarrow> 0 < stability cfg access_count"
  by (simp add: stability_def)

lemma stability_strict_mono:
  "0 < base_stability cfg \<Longrightarrow> access_count < access_count' \<Longrightarrow>
     stability cfg access_count < stability cfg access_count'"
  by (simp add: stability_def)

lemma importance_normalized_bounds:
  assumes "0 < importance_cap cfg" and "0 \<le> importance"
  shows "0 \<le> importance_normalized cfg importance" and "importance_normalized cfg importance \<le> 1"
  using assms by (simp_all add: importance_normalized_def)

lemma importance_normalized_pos:
  "0 < importance_cap cfg \<Longrightarrow> 0 < importance \<Longrightarrow> 0 < importance_normalized cfg importance"
  by (simp add: importance_normalized_def)

lemma decay_bounds:
  assumes "0 < base_stability cfg" and "0 \<le> access_count"
  shows "0 < exp (- elapsed_days last_accessed_at now / stability cfg access_count)"
    and "exp (- elapsed_days last_accessed_at now / stability cfg access_count) \<le> 1"
proof -
  show "0 < exp (- elapsed_days last_accessed_at now / stability cfg access_count)" by simp
  have "0 \<le> elapsed_days last_accessed_at now / stability cfg access_count"
    using stability_pos [OF assms] elapsed_days_nonneg [of last_accessed_at now] by simp
  then show "exp (- elapsed_days last_accessed_at now / stability cfg access_count) \<le> 1"
    by simp
qed

text \<open>
  C4. With the configuration constants \<open>base_stability\<close> and \<open>importance_cap\<close>
  positive, for every \<open>importance \<ge> 0\<close>, every \<open>access_count \<ge> 0\<close> and every pair
  \<open>(last_accessed_at, now)\<close> the result of the Retention Scorer lies in \<open>[0, 1]\<close>.
\<close>

theorem score_in_unit_interval:
  assumes "0 < base_stability cfg" and "0 < importance_cap cfg"
    and "0 \<le> importance" and "0 \<le> access_count"
  shows "0 \<le> score cfg importance access_count last_accessed_at now
       \<and> score cfg importance access_count last_accessed_at now \<le> 1"
proof
  let ?n = "importance_normalized cfg importance"
  let ?d = "exp (- elapsed_days last_accessed_at now / stability cfg access_count)"
  note n = importance_normalized_bounds [OF assms(2,3)]
  note d = decay_bounds [OF assms(1,4), of last_accessed_at now]
  from n(1) d(1) show "0 \<le> score cfg importance access_count last_accessed_at now"
    by (simp add: score_def)
  from n d have "?n * ?d \<le> 1 * 1" by (intro mult_mono) simp_all
  then show "score cfg importance access_count last_accessed_at now \<le> 1"
    by (simp add: score_def)
qed

text \<open>
  The scenario of the spec: importance 1, no access, cap 5. Just accessed, the score
  is \<open>1/5\<close>.
\<close>

theorem score_in_unit_interval_witness:
  "0 < base_stability example_config \<and> 0 < importance_cap example_config
   \<and> score example_config 1 0 100 100 = 1/5
   \<and> 0 \<le> score example_config 1 0 100 100 \<and> score example_config 1 0 100 100 \<le> 1"
proof -
  have c: "0 < base_stability example_config" "0 < importance_cap example_config"
    by (simp_all add: example_config_def)
  have s: "score example_config 1 0 100 100 = 1/5"
    by (simp add: score_def importance_normalized_def elapsed_days_def example_config_def)
  from score_in_unit_interval [OF c, of 1 0 100 100] c s show ?thesis by simp
qed

text \<open>
  C5, as amended. With the configuration constants positive and \<open>access_count \<ge> 0\<close>:
  at \<open>elapsed_days = 0\<close> the score is \<open>importance_normalized\<close>; for a fixed
  \<open>importance > 0\<close> and a fixed \<open>access_count\<close> the score is strictly decreasing in
  the elapsed time; for a fixed elapsed time and a fixed \<open>importance \<ge> 0\<close> a higher
  \<open>access_count\<close> never yields a lower score, and yields a strictly higher one when
  \<open>importance > 0\<close> and the elapsed time is positive. (With \<open>importance = 0\<close> the score
  is 0 throughout, and with no elapsed time it is \<open>importance_normalized\<close> whatever
  the \<open>access_count\<close>.)
\<close>

theorem score_monotone:
  assumes "0 < base_stability cfg" and "0 < importance_cap cfg" and "0 \<le> access_count"
  shows "(now \<le> last_accessed_at \<longrightarrow>
            score cfg importance access_count last_accessed_at now
              = importance_normalized cfg importance)
       \<and> (importance = 0 \<longrightarrow> score cfg importance access_count last_accessed_at now = 0)
       \<and> (0 < importance \<longrightarrow> last_accessed_at \<le> now \<longrightarrow> now < now' \<longrightarrow>
            score cfg importance access_count last_accessed_at now'
              < score cfg importance access_count last_accessed_at now)
       \<and> (0 \<le> importance \<longrightarrow> access_count < access_count' \<longrightarrow>
            score cfg importance access_count last_accessed_at now
              \<le> score cfg importance access_count' last_accessed_at now)
       \<and> (0 < importance \<longrightarrow> last_accessed_at < now \<longrightarrow> access_count < access_count' \<longrightarrow>
            score cfg importance access_count last_accessed_at now
              < score cfg importance access_count' last_accessed_at now)"
proof (intro conjI impI)
  assume "now \<le> last_accessed_at"
  then show "score cfg importance access_count last_accessed_at now
      = importance_normalized cfg importance"
    by (simp add: score_def elapsed_days_zero)
next
  assume "importance = 0"
  with assms(2) show "score cfg importance access_count last_accessed_at now = 0"
    by (simp add: score_def importance_normalized_def)
next
  assume i: "0 < importance" and t: "last_accessed_at \<le> now" "now < now'"
  have s: "0 < stability cfg access_count" by (rule stability_pos [OF assms(1,3)])
  from elapsed_days_strict_mono [OF t] s
  have "- elapsed_days last_accessed_at now' / stability cfg access_count
      < - elapsed_days last_accessed_at now / stability cfg access_count"
    by (simp add: divide_strict_right_mono)
  then have "exp (- elapsed_days last_accessed_at now' / stability cfg access_count)
      < exp (- elapsed_days last_accessed_at now / stability cfg access_count)"
    by simp
  with importance_normalized_pos [OF assms(2) i]
  show "score cfg importance access_count last_accessed_at now'
      < score cfg importance access_count last_accessed_at now"
    by (simp add: score_def)
next
  assume i: "0 \<le> importance" and a: "access_count < access_count'"
  have s: "0 < stability cfg access_count" by (rule stability_pos [OF assms(1,3)])
  from stability_strict_mono [OF assms(1) a] s elapsed_days_nonneg [of last_accessed_at now]
  have "elapsed_days last_accessed_at now / stability cfg access_count'
      \<le> elapsed_days last_accessed_at now / stability cfg access_count"
    by (intro divide_left_mono) simp_all
  then have "exp (- elapsed_days last_accessed_at now / stability cfg access_count)
      \<le> exp (- elapsed_days last_accessed_at now / stability cfg access_count')"
    by simp
  with importance_normalized_bounds(1) [OF assms(2) i]
  show "score cfg importance access_count last_accessed_at now
      \<le> score cfg importance access_count' last_accessed_at now"
    by (simp add: score_def mult_left_mono)
next
  assume i: "0 < importance" and t: "last_accessed_at < now" and a: "access_count < access_count'"
  have s: "0 < stability cfg access_count" by (rule stability_pos [OF assms(1,3)])
  from stability_strict_mono [OF assms(1) a] s elapsed_days_pos [OF t]
  have "elapsed_days last_accessed_at now / stability cfg access_count'
      < elapsed_days last_accessed_at now / stability cfg access_count"
    by (intro divide_strict_left_mono) simp_all
  then have "exp (- elapsed_days last_accessed_at now / stability cfg access_count)
      < exp (- elapsed_days last_accessed_at now / stability cfg access_count')"
    by simp
  with importance_normalized_pos [OF assms(2) i]
  show "score cfg importance access_count last_accessed_at now
      < score cfg importance access_count' last_accessed_at now"
    by (simp add: score_def)
qed

text \<open>
  With importance 1 and the last access at time 0: one day later the score is lower
  than at time 0, and lower with no access than with one.
\<close>

theorem score_monotone_witness:
  "0 < base_stability example_config \<and> 0 < importance_cap example_config
   \<and> score example_config 1 0 0 0 = importance_normalized example_config 1
   \<and> score example_config 1 0 0 86400000000 < score example_config 1 0 0 0
   \<and> score example_config 1 0 0 86400000000 \<le> score example_config 1 1 0 86400000000
   \<and> score example_config 1 0 0 86400000000 < score example_config 1 1 0 86400000000"
proof -
  have c: "0 < base_stability example_config" "0 < importance_cap example_config"
    by (simp_all add: example_config_def)
  have z: "(0::int) \<le> 0" by simp
  from score_monotone [OF c z, of 0 0 1 86400000000 1]
    score_monotone [OF c z, of 86400000000 0 1 86400000001 1]
    c show ?thesis by simp
qed

text \<open>
  The claim as stated holds for every fixed importance. With \<open>importance = 0\<close>, which
  the data model allows, the score is 0 at every elapsed time and for every
  \<open>access_count\<close>: it is not strictly decreasing in the elapsed time, and a higher
  \<open>access_count\<close> does not raise it although the importance is below the cap. With
  importance 1, below the cap 5, and no elapsed time the score is \<open>1/5\<close> with no
  access and with one.
\<close>

theorem score_monotone_counterexample:
  "score example_config 0 0 0 0 = 0
   \<and> score example_config 0 0 0 86400000000 = 0
   \<and> \<not> score example_config 0 0 0 86400000000 < score example_config 0 0 0 0
   \<and> \<not> score example_config 0 0 0 86400000000 < score example_config 0 1 0 86400000000
   \<and> score example_config 1 0 100 100 = 1/5
   \<and> score example_config 1 1 100 100 = 1/5
   \<and> \<not> score example_config 1 0 100 100 < score example_config 1 1 100 100
   \<and> (1::real) < importance_cap example_config"
  by (simp add: score_def importance_normalized_def elapsed_days_def example_config_def)

section \<open>Properties of the Resurfacing Selector\<close>

lemma set_qualifying:
  "set (qualifying cfg now owner_id store) =
     {m \<in> set store. m_user_id m = owner_id \<and> qualifies cfg now m}"
  by (auto simp: qualifying_def)

lemma resurface_key_le:
  "resurface_key cfg now a \<le> resurface_key cfg now b \<longleftrightarrow>
     retention_score cfg now a < retention_score cfg now b \<or>
     (retention_score cfg now a = retention_score cfg now b \<and> m_created_at a \<le> m_created_at b)"
  by (auto simp: resurface_key_def)

lemma sorted_resurface_order:
  "sorted_wrt (\<lambda>a b. resurface_key cfg now a \<le> resurface_key cfg now b)
     (sort_key (resurface_key cfg now) ms)"
  using sorted_sort_key [of "resurface_key cfg now" ms] by (simp add: sorted_map)

text \<open>
  C6. The selection for an owner leaves the store unchanged. Every selected Memory
  is one of the owner's, is flagged \<open>is_resurfaced\<close>, and has
  \<open>retention_score < resurface_threshold\<close> and
  \<open>importance \<ge> resurface_importance_floor\<close>, so none has an importance below the
  floor. The selection is ordered by \<open>retention_score\<close> ascending, ties by
  \<open>created_at\<close> ascending; it holds \<open>N\<close> Memories, or all the qualifying ones when
  they are fewer; and every qualifying Memory left out comes after every selected
  one in that order: its \<open>retention_score\<close> is higher, or it is equal and its
  \<open>created_at\<close> is not earlier. So among the Memories tied at the last selected score
  it is the oldest that are selected.
\<close>

theorem resurface_selection:
  assumes "resurface cfg now owner_id n store = (store', out)"
  shows "store' = store
       \<and> (\<forall>x \<in> set out. rs_memory x \<in> set store \<and> m_user_id (rs_memory x) = owner_id
             \<and> rs_is_resurfaced x
             \<and> rs_retention_score x = retention_score cfg now (rs_memory x)
             \<and> rs_retention_score x < resurface_threshold cfg
             \<and> resurface_importance_floor cfg \<le> m_importance (rs_memory x))
       \<and> sorted_wrt (\<lambda>a b. rs_retention_score a < rs_retention_score b \<or>
             (rs_retention_score a = rs_retention_score b \<and>
              m_created_at (rs_memory a) \<le> m_created_at (rs_memory b))) out
       \<and> length out = min n (length (qualifying cfg now owner_id store))
       \<and> (\<exists>rest. mset (map rs_memory out @ rest) = mset (qualifying cfg now owner_id store)
             \<and> (\<forall>a \<in> set out. \<forall>b \<in> set rest.
                   rs_retention_score a < retention_score cfg now b \<or>
                   (rs_retention_score a = retention_score cfg now b \<and>
                    m_created_at (rs_memory a) \<le> m_created_at b)))"
proof -
  let ?q = "qualifying cfg now owner_id store"
  let ?xs = "sort_key (resurface_key cfg now) ?q"
  from assms have st: "store' = store"
    and out: "out = map (mark_resurfaced cfg now) (take n ?xs)"
    by (auto simp: resurface_def)
  have mem_out: "rs_memory x \<in> set ?q \<and> rs_is_resurfaced x
      \<and> rs_retention_score x = retention_score cfg now (rs_memory x)"
    if "x \<in> set out" for x
    using that by (auto simp: out mark_resurfaced_def dest: in_set_takeD)
  have 1: "\<forall>x \<in> set out. rs_memory x \<in> set store \<and> m_user_id (rs_memory x) = owner_id
             \<and> rs_is_resurfaced x
             \<and> rs_retention_score x = retention_score cfg now (rs_memory x)
             \<and> rs_retention_score x < resurface_threshold cfg
             \<and> resurface_importance_floor cfg \<le> m_importance (rs_memory x)"
  proof
    fix x assume "x \<in> set out"
    from mem_out [OF this] show "rs_memory x \<in> set store \<and> m_user_id (rs_memory x) = owner_id
             \<and> rs_is_resurfaced x
             \<and> rs_retention_score x = retention_score cfg now (rs_memory x)
             \<and> rs_retention_score x < resurface_threshold cfg
             \<and> resurface_importance_floor cfg \<le> m_importance (rs_memory x)"
      by (auto simp: set_qualifying qualifies_def)
  qed
  have srt: "sorted_wrt (\<lambda>a b. resurface_key cfg now a \<le> resurface_key cfg now b) ?xs"
    by (rule sorted_resurface_order)
  then have "sorted_wrt (\<lambda>a b. resurface_key cfg now a \<le> resurface_key cfg now b) (take n ?xs)"
    by (rule sorted_wrt_take)
  then have 2: "sorted_wrt (\<lambda>a b. rs_retention_score a < rs_retention_score b \<or>
             (rs_retention_score a = rs_retention_score b \<and>
              m_created_at (rs_memory a) \<le> m_created_at (rs_memory b))) out"
    by (simp add: out sorted_wrt_map resurface_key_le mark_resurfaced_def)
  have 3: "length out = min n (length ?q)"
    by (simp add: out min.commute)
  have m: "map rs_memory out = take n ?xs"
    by (simp add: out mark_resurfaced_def comp_def)
  have "mset (map rs_memory out @ drop n ?xs) = mset ?q"
    unfolding m by (simp flip: mset_append)
  moreover have "\<forall>a \<in> set out. \<forall>b \<in> set (drop n ?xs).
      rs_retention_score a < retention_score cfg now b \<or>
      (rs_retention_score a = retention_score cfg now b \<and>
       m_created_at (rs_memory a) \<le> m_created_at b)"
  proof (intro ballI)
    fix a b assume a: "a \<in> set out" and b: "b \<in> set (drop n ?xs)"
    from a have "rs_memory a \<in> set (map rs_memory out)" by simp
    then have a': "rs_memory a \<in> set (take n ?xs)" by (simp only: m)
    from mem_out [OF a] have s: "rs_retention_score a = retention_score cfg now (rs_memory a)"
      by simp
    from srt have "sorted_wrt (\<lambda>a b. resurface_key cfg now a \<le> resurface_key cfg now b)
        (take n ?xs @ drop n ?xs)" by simp
    then have "resurface_key cfg now (rs_memory a) \<le> resurface_key cfg now b"
      unfolding sorted_wrt_append using a' b by blast
    with s show "rs_retention_score a < retention_score cfg now b \<or>
      (rs_retention_score a = retention_score cfg now b \<and>
       m_created_at (rs_memory a) \<le> m_created_at b)"
      by (simp add: resurface_key_le)
  qed
  ultimately have 4: "\<exists>rest. mset (map rs_memory out @ rest) = mset ?q
        \<and> (\<forall>a \<in> set out. \<forall>b \<in> set rest.
              rs_retention_score a < retention_score cfg now b \<or>
              (rs_retention_score a = retention_score cfg now b \<and>
               m_created_at (rs_memory a) \<le> m_created_at b))"
    by blast
  from st 1 2 3 4 show ?thesis by blast
qed

text \<open>
  On the example store at time 1000, for alice: the Memories 1, 2 and 5 qualify
  (scores \<open>2/5\<close>, \<open>1/5\<close>, \<open>1/5\<close>); Memory 3 has score \<open>3/5\<close>, Memory 4 has
  importance \<open>1/2\<close> below the floor 1, Memory 6 is bob's. The Memories 2 and 5 are
  tied at the lowest score; Memory 5 was created at 100 and Memory 2 at 200. For
  \<open>N = 1\<close> the selection is Memory 5, the older of the two; for \<open>N = 2\<close> it is
  Memory 5 then Memory 2.
\<close>

lemmas resurface_defs =
  resurface_def qualifying_def qualifies_def resurface_key_def mark_resurfaced_def
  retention_score_def score_def importance_normalized_def elapsed_days_def stability_def
  example_store_def example_config_def fading_def mem_def alice_def bob_def

lemma example_resurface_1:
  "resurface example_config 1000 alice 1 example_store =
     (example_store,
      [\<lparr> rs_memory = fading 5 alice 1 100, rs_retention_score = 1/5, rs_is_resurfaced = True \<rparr>])"
  by (simp add: resurface_defs)

lemma example_resurface_2:
  "resurface example_config 1000 alice 2 example_store =
     (example_store,
      [\<lparr> rs_memory = fading 5 alice 1 100, rs_retention_score = 1/5, rs_is_resurfaced = True \<rparr>,
       \<lparr> rs_memory = fading 2 alice 1 200, rs_retention_score = 1/5, rs_is_resurfaced = True \<rparr>])"
  by (simp add: resurface_defs)

lemma example_qualifying:
  "qualifying example_config 1000 alice example_store =
     [fading 1 alice 2 300, fading 2 alice 1 200, fading 5 alice 1 100]"
  by (simp add: resurface_defs)

theorem resurface_selection_witness:
  "resurface example_config 1000 alice 1 example_store =
     (example_store,
      [\<lparr> rs_memory = fading 5 alice 1 100, rs_retention_score = 1/5, rs_is_resurfaced = True \<rparr>])
   \<and> resurface example_config 1000 alice 2 example_store =
     (example_store,
      [\<lparr> rs_memory = fading 5 alice 1 100, rs_retention_score = 1/5, rs_is_resurfaced = True \<rparr>,
       \<lparr> rs_memory = fading 2 alice 1 200, rs_retention_score = 1/5, rs_is_resurfaced = True \<rparr>])
   \<and> qualifying example_config 1000 alice example_store =
     [fading 1 alice 2 300, fading 2 alice 1 200, fading 5 alice 1 100]
   \<and> retention_score example_config 1000 (fading 2 alice 1 200) = 1/5
   \<and> retention_score example_config 1000 (fading 5 alice 1 100) = 1/5
   \<and> (1/5 :: real) < resurface_threshold example_config
   \<and> resurface_importance_floor example_config \<le> m_importance (fading 5 alice 1 100)
   \<and> m_created_at (fading 5 alice 1 100) < m_created_at (fading 2 alice 1 200)
   \<and> length [\<lparr> rs_memory = fading 5 alice 1 100, rs_retention_score = 1/5,
                rs_is_resurfaced = True \<rparr>]
       = min 1 (length (qualifying example_config 1000 alice example_store))"
proof -
  from resurface_selection [OF example_resurface_1]
  have "length [\<lparr> rs_memory = fading 5 alice 1 100, rs_retention_score = 1/5,
                rs_is_resurfaced = True \<rparr>]
       = min 1 (length (qualifying example_config 1000 alice example_store))"
    by blast
  moreover have "retention_score example_config 1000 (fading 2 alice 1 200) = 1/5"
    "retention_score example_config 1000 (fading 5 alice 1 100) = 1/5"
    by (simp_all add: resurface_defs)
  ultimately show ?thesis
    using example_resurface_1 example_resurface_2 example_qualifying
    by (simp add: fading_def mem_def example_config_def)
qed

section \<open>Properties of the Reinforcement Updater\<close>

lemma reinforce_memory_key [simp]:
  "m_id (reinforce_memory cfg now m) = m_id m"
  "m_user_id (reinforce_memory cfg now m) = m_user_id m"
  by (simp_all add: reinforce_memory_def)

lemma reinforce_memory_mono:
  "m_access_count m \<le> m_access_count (reinforce_memory cfg now m)"
  "m_last_accessed_at m \<le> m_last_accessed_at (reinforce_memory cfg now m)"
  "m_importance m \<le> m_importance (reinforce_memory cfg now m)"
  by (simp_all add: reinforce_memory_def)

lemma reinforce_get:
  "reinforce cfg owner_id i now store = Inr store' \<Longrightarrow>
     \<exists>m. get_memory owner_id i store = Inr m \<and>
         get_memory owner_id i store' = Inr (reinforce_memory cfg now m)"
  by (induction store arbitrary: store') (auto split: if_splits sum.splits)

lemma reinforce_error:
  "reinforce cfg owner_id i now store = Inl e \<Longrightarrow>
     e = NotFound \<and> get_memory owner_id i store = Inl NotFound"
  by (induction store) (auto split: if_splits sum.splits)

lemma reinforce_found:
  "get_memory owner_id i store = Inr m \<Longrightarrow> \<exists>store'. reinforce cfg owner_id i now store = Inr store'"
  by (induction store) (auto split: if_splits)

lemma reinforce_others:
  "reinforce cfg owner_id i now store = Inr store' \<Longrightarrow> (i', owner') \<noteq> (i, owner_id) \<Longrightarrow>
     get_memory owner' i' store' = get_memory owner' i' store"
  by (induction store arbitrary: store') (auto split: if_splits sum.splits)

lemma reinforce_rows:
  "reinforce cfg owner_id i now store = Inr store' \<Longrightarrow>
     length store' = length store \<and>
     (\<forall>j < length store. store' ! j = store ! j \<or>
        (m_id (store ! j) = i \<and> m_user_id (store ! j) = owner_id \<and>
         store' ! j = reinforce_memory cfg now (store ! j)))"
proof (induction store arbitrary: store')
  case Nil
  then show ?case by simp
next
  case (Cons m ms)
  show ?case
  proof (cases "m_id m = i \<and> m_user_id m = owner_id")
    case True
    with Cons.prems have "store' = reinforce_memory cfg now m # ms" by simp
    with True show ?thesis by (auto simp: nth_Cons split: nat.splits)
  next
    case False
    with Cons.prems obtain ms' where r: "reinforce cfg owner_id i now ms = Inr ms'"
      and s: "store' = m # ms'"
      by (auto split: sum.splits)
    from Cons.IH [OF r] s show ?thesis by (auto simp: nth_Cons split: nat.splits)
  qed
qed

lemma reinforce_calls_mono:
  "reinforce_calls cfg owner_id i nows store = Inr store' \<Longrightarrow>
     get_memory owner_id i store = Inr m \<Longrightarrow>
     \<exists>m'. get_memory owner_id i store' = Inr m' \<and>
        m_access_count m' = m_access_count m + int (length nows) \<and>
        m_last_accessed_at m \<le> m_last_accessed_at m' \<and>
        m_importance m \<le> m_importance m'"
proof (induction nows arbitrary: store m)
  case Nil
  then show ?case by simp
next
  case (Cons now nows)
  from Cons.prems(1) obtain s1 where s1: "reinforce cfg owner_id i now store = Inr s1"
    and rest: "reinforce_calls cfg owner_id i nows s1 = Inr store'"
    by (auto split: sum.splits)
  from reinforce_get [OF s1] Cons.prems(2)
  have g1: "get_memory owner_id i s1 = Inr (reinforce_memory cfg now m)" by simp
  note mono = reinforce_memory_mono [of m cfg now]
  from Cons.IH [OF rest g1] obtain m'
    where m': "get_memory owner_id i store' = Inr m'"
      "m_access_count m' = m_access_count (reinforce_memory cfg now m) + int (length nows)"
      "m_last_accessed_at (reinforce_memory cfg now m) \<le> m_last_accessed_at m'"
      "m_importance (reinforce_memory cfg now m) \<le> m_importance m'"
    by blast
  from m'(2) have "m_access_count m' = m_access_count m + int (length (now # nows))"
    by (simp add: reinforce_memory_def)
  moreover from m'(3) mono(2) have "m_last_accessed_at m \<le> m_last_accessed_at m'" by simp
  moreover from m'(4) mono(3) have "m_importance m \<le> m_importance m'" by simp
  ultimately show ?case using m'(1) by blast
qed

lemma reinforce_calls_found:
  "get_memory owner_id i store = Inr m \<Longrightarrow>
     \<exists>store'. reinforce_calls cfg owner_id i nows store = Inr store'"
proof (induction nows arbitrary: store m)
  case Nil
  then show ?case by simp
next
  case (Cons now nows)
  from reinforce_found [OF Cons.prems] obtain s1
    where s1: "reinforce cfg owner_id i now store = Inr s1" by blast
  from reinforce_get [OF s1] obtain m1 where "get_memory owner_id i s1 = Inr m1" by blast
  from Cons.IH [OF this] s1 show ?case by simp
qed

text \<open>
  C7. A call \<open>reinforce(owner_id, id, now)\<close> either fails with \<open>NotFound\<close> and writes
  nothing, or replaces the Memory of that owner and id by one in which, together,
  \<open>access_count\<close> is one more, \<open>last_accessed_at\<close> is \<open>now\<close> if \<open>now\<close> is strictly later
  and is unchanged otherwise, and \<open>importance\<close> is not lower: it is
  \<open>min (importance + increment) importance_cap\<close> when the importance is at most the
  cap and the increment is not negative, and it is unchanged when the importance is
  at or above the cap. The other fields of the Memory, the number of Memories, and
  every Memory of another owner or id are unchanged. For every Memory and every
  sequence of calls on it, every call succeeds, \<open>access_count\<close>, \<open>last_accessed_at\<close>
  and \<open>importance\<close> never decrease, and \<open>access_count\<close> grows by the number of
  calls.
\<close>

theorem reinforce_never_decreases:
  "(\<forall>e. reinforce cfg owner_id i now store = Inl e \<longrightarrow>
        e = NotFound \<and> get_memory owner_id i store = Inl NotFound)
   \<and> (\<forall>store'. reinforce cfg owner_id i now store = Inr store' \<longrightarrow>
        (\<exists>m m'. get_memory owner_id i store = Inr m \<and> get_memory owner_id i store' = Inr m' \<and>
           m_access_count m' = m_access_count m + 1 \<and>
           m_last_accessed_at m' = (if m_last_accessed_at m < now then now else m_last_accessed_at m) \<and>
           m_importance m \<le> m_importance m' \<and>
           (0 \<le> reinforcement_increment cfg \<longrightarrow> m_importance m \<le> importance_cap cfg \<longrightarrow>
              m_importance m' = min (m_importance m + reinforcement_increment cfg) (importance_cap cfg)) \<and>
           (importance_cap cfg \<le> m_importance m \<longrightarrow> m_importance m' = m_importance m) \<and>
           m_id m' = m_id m \<and> m_user_id m' = m_user_id m \<and> m_raw_text m' = m_raw_text m \<and>
           m_summary m' = m_summary m \<and> m_embedding m' = m_embedding m \<and>
           m_summary_count m' = m_summary_count m \<and> m_created_at m' = m_created_at m)
        \<and> length store' = length store
        \<and> (\<forall>j < length store. store' ! j = store ! j \<or>
              (m_id (store ! j) = i \<and> m_user_id (store ! j) = owner_id))
        \<and> (\<forall>owner' i'. (i', owner') \<noteq> (i, owner_id) \<longrightarrow>
              get_memory owner' i' store' = get_memory owner' i' store))
   \<and> (\<forall>nows m. get_memory owner_id i store = Inr m \<longrightarrow>
        (\<exists>store'. reinforce_calls cfg owner_id i nows store = Inr store'))
   \<and> (\<forall>store' nows m. reinforce_calls cfg owner_id i nows store = Inr store' \<longrightarrow>
        get_memory owner_id i store = Inr m \<longrightarrow>
        (\<exists>m'. get_memory owner_id i store' = Inr m' \<and>
           m_access_count m' = m_access_count m + int (length nows) \<and>
           m_access_count m \<le> m_access_count m' \<and>
           m_last_accessed_at m \<le> m_last_accessed_at m' \<and>
           m_importance m \<le> m_importance m'))"
proof (intro conjI allI impI)
  fix e assume "reinforce cfg owner_id i now store = Inl e"
  from reinforce_error [OF this]
  show "e = NotFound" and "get_memory owner_id i store = Inl NotFound" by simp_all
next
  fix store' assume r: "reinforce cfg owner_id i now store = Inr store'"
  from reinforce_get [OF r] obtain m where g: "get_memory owner_id i store = Inr m"
    "get_memory owner_id i store' = Inr (reinforce_memory cfg now m)" by blast
  have "m_access_count (reinforce_memory cfg now m) = m_access_count m + 1 \<and>
      m_last_accessed_at (reinforce_memory cfg now m)
        = (if m_last_accessed_at m < now then now else m_last_accessed_at m) \<and>
      m_importance m \<le> m_importance (reinforce_memory cfg now m) \<and>
      (0 \<le> reinforcement_increment cfg \<longrightarrow> m_importance m \<le> importance_cap cfg \<longrightarrow>
         m_importance (reinforce_memory cfg now m)
           = min (m_importance m + reinforcement_increment cfg) (importance_cap cfg)) \<and>
      (importance_cap cfg \<le> m_importance m \<longrightarrow>
         m_importance (reinforce_memory cfg now m) = m_importance m) \<and>
      m_id (reinforce_memory cfg now m) = m_id m \<and>
      m_user_id (reinforce_memory cfg now m) = m_user_id m \<and>
      m_raw_text (reinforce_memory cfg now m) = m_raw_text m \<and>
      m_summary (reinforce_memory cfg now m) = m_summary m \<and>
      m_embedding (reinforce_memory cfg now m) = m_embedding m \<and>
      m_summary_count (reinforce_memory cfg now m) = m_summary_count m \<and>
      m_created_at (reinforce_memory cfg now m) = m_created_at m"
    by (simp add: reinforce_memory_def)
  with g show "\<exists>m m'. get_memory owner_id i store = Inr m \<and> get_memory owner_id i store' = Inr m' \<and>
           m_access_count m' = m_access_count m + 1 \<and>
           m_last_accessed_at m' = (if m_last_accessed_at m < now then now else m_last_accessed_at m) \<and>
           m_importance m \<le> m_importance m' \<and>
           (0 \<le> reinforcement_increment cfg \<longrightarrow> m_importance m \<le> importance_cap cfg \<longrightarrow>
              m_importance m' = min (m_importance m + reinforcement_increment cfg) (importance_cap cfg)) \<and>
           (importance_cap cfg \<le> m_importance m \<longrightarrow> m_importance m' = m_importance m) \<and>
           m_id m' = m_id m \<and> m_user_id m' = m_user_id m \<and> m_raw_text m' = m_raw_text m \<and>
           m_summary m' = m_summary m \<and> m_embedding m' = m_embedding m \<and>
           m_summary_count m' = m_summary_count m \<and> m_created_at m' = m_created_at m"
    by (intro exI [of _ m] exI [of _ "reinforce_memory cfg now m"] conjI) (rule g | blast)+
  from reinforce_rows [OF r] show "length store' = length store" by simp
  from reinforce_rows [OF r] show "store' ! j = store ! j \<or>
      (m_id (store ! j) = i \<and> m_user_id (store ! j) = owner_id)" if "j < length store" for j
    using that by blast
  show "get_memory owner' i' store' = get_memory owner' i' store"
    if "(i', owner') \<noteq> (i, owner_id)" for owner' i'
    using reinforce_others [OF r that] .
next
  fix nows m assume "get_memory owner_id i store = Inr m"
  then show "\<exists>store'. reinforce_calls cfg owner_id i nows store = Inr store'"
    by (rule reinforce_calls_found)
next
  fix store' nows m
  assume "reinforce_calls cfg owner_id i nows store = Inr store'" "get_memory owner_id i store = Inr m"
  from reinforce_calls_mono [OF this] obtain m'
    where m': "get_memory owner_id i store' = Inr m'"
      "m_access_count m' = m_access_count m + int (length nows)"
      "m_last_accessed_at m \<le> m_last_accessed_at m'"
      "m_importance m \<le> m_importance m'"
    by blast
  from m'(2) have "m_access_count m \<le> m_access_count m'" by simp
  with m' show "\<exists>m'. get_memory owner_id i store' = Inr m' \<and>
           m_access_count m' = m_access_count m + int (length nows) \<and>
           m_access_count m \<le> m_access_count m' \<and>
           m_last_accessed_at m \<le> m_last_accessed_at m' \<and>
           m_importance m \<le> m_importance m'"
    by blast
qed

text \<open>
  The scenario of the spec: a Memory of importance 1 and no access, reinforced at
  time 200, has \<open>access_count = 1\<close>, \<open>importance = 1.1\<close> and \<open>last_accessed_at = 200\<close>;
  bob's Memory in the same store is untouched. A second call with the earlier time
  150 leaves \<open>last_accessed_at\<close> at 200. A call for another owner fails with
  \<open>NotFound\<close>. A Memory of importance 6, above the cap 5, keeps its importance.
\<close>

lemmas reinforce_defs =
  reinforce_memory_def example_config_def mem_def alice_def bob_def

lemma example_reinforce:
  "reinforce example_config alice 1 200 [mem 1 alice None 100, mem 2 bob None 100]
     = Inr [(mem 1 alice None 100)
              \<lparr> m_access_count := 1, m_last_accessed_at := 200, m_importance := 11/10 \<rparr>,
            mem 2 bob None 100]"
  by (simp add: reinforce_defs)

theorem reinforce_never_decreases_witness:
  "reinforce example_config alice 1 200 [mem 1 alice None 100, mem 2 bob None 100]
     = Inr [(mem 1 alice None 100)
              \<lparr> m_access_count := 1, m_last_accessed_at := 200, m_importance := 11/10 \<rparr>,
            mem 2 bob None 100]
   \<and> length [(mem 1 alice None 100)
              \<lparr> m_access_count := 1, m_last_accessed_at := 200, m_importance := 11/10 \<rparr>,
            mem 2 bob None 100]
       = length [mem 1 alice None 100, mem 2 bob None 100]
   \<and> reinforce example_config bob 1 200 [mem 1 alice None 100, mem 2 bob None 100] = Inl NotFound
   \<and> reinforce_calls example_config alice 1 [200, 150] [mem 1 alice None 100, mem 2 bob None 100]
     = Inr [(mem 1 alice None 100)
              \<lparr> m_access_count := 2, m_last_accessed_at := 200, m_importance := 6/5 \<rparr>,
            mem 2 bob None 100]
   \<and> reinforce example_config alice 3 200 [(mem 3 alice None 100) \<lparr> m_importance := 6 \<rparr>]
     = Inr [(mem 3 alice None 100)
              \<lparr> m_access_count := 1, m_last_accessed_at := 200, m_importance := 6 \<rparr>]"
proof -
  from reinforce_never_decreases
    [of example_config alice 1 200 "[mem 1 alice None 100, mem 2 bob None 100]"]
    example_reinforce
  have "length [(mem 1 alice None 100)
              \<lparr> m_access_count := 1, m_last_accessed_at := 200, m_importance := 11/10 \<rparr>,
            mem 2 bob None 100]
       = length [mem 1 alice None 100, mem 2 bob None 100]"
    by blast
  moreover have "reinforce example_config bob 1 200 [mem 1 alice None 100, mem 2 bob None 100]
      = Inl NotFound"
    by (simp add: reinforce_defs)
  moreover have "reinforce_calls example_config alice 1 [200, 150]
      [mem 1 alice None 100, mem 2 bob None 100]
     = Inr [(mem 1 alice None 100)
              \<lparr> m_access_count := 2, m_last_accessed_at := 200, m_importance := 6/5 \<rparr>,
            mem 2 bob None 100]"
    by (simp add: reinforce_defs)
  moreover have "reinforce example_config alice 3 200 [(mem 3 alice None 100) \<lparr> m_importance := 6 \<rparr>]
     = Inr [(mem 3 alice None 100)
              \<lparr> m_access_count := 1, m_last_accessed_at := 200, m_importance := 6 \<rparr>]"
    by (simp add: reinforce_defs)
  ultimately show ?thesis using example_reinforce by blast
qed

end
